theory Spec2Isabelle
  imports Main "HOL-Library.Sublist"
begin

section \<open>Cell values and the Python primitives the library calls\<close>

text \<open>
  A cell of a DataFrame column holds a Python object. The model keeps the kinds the
  library distinguishes: a \<open>str\<close>, an \<open>int\<close>, a \<open>bool\<close>, a float and \<open>None\<close>. Of
  the floats the model has \<open>nan\<close> and the finite floats whose value is an integer,
  \<open>FloatV j\<close> for the float of value \<open>j\<close>: these are the floats pandas makes of
  integers. Floats with a fraction and the infinities are left out. A Python string
  is a list of characters; the characters of the model are the code points below
  256, so \<open>length\<close> counts characters as \<open>len\<close> does. The library is modelled on
  pandas 2 with NumPy-backed columns and on openpyxl 3.
\<close>

datatype cell = StrV string | IntV int | BoolV bool | FloatV int | NaN | NoneV

text \<open>\<open>pd.isna\<close> on a scalar: true of \<open>None\<close> and of \<open>nan\<close>.\<close>

fun pd_isna :: "cell \<Rightarrow> bool" where
  "pd_isna NaN = True"
| "pd_isna NoneV = True"
| "pd_isna _ = False"

fun isinstance_str :: "cell \<Rightarrow> bool" where
  "isinstance_str (StrV _) = True"
| "isinstance_str _ = False"

subsection \<open>\<open>str\<close> of a cell\<close>

definition digit_char :: "nat \<Rightarrow> char" where
  "digit_char d = char_of (48 + d)"

text \<open>The decimal digits of an integer that is not negative.\<close>

function str_digits :: "int \<Rightarrow> string" where
  "str_digits a =
     (if a < 10 then [digit_char (nat a)]
      else str_digits (a div 10) @ [digit_char (nat (a mod 10))])"
  by pat_completeness auto
termination
  by (relation "measure nat") auto

declare str_digits.simps [simp del]

definition str_int :: "int \<Rightarrow> string" where
  "str_int i = (if i < 0 then CHR ''-'' # str_digits (- i) else str_digits i)"

definition str_nat :: "nat \<Rightarrow> string" where
  "str_nat n = str_digits (int n)"

subsection \<open>Floats of integer value\<close>

text \<open>The number of binary digits of \<open>a\<close>, for \<open>a\<close> not negative.\<close>

function bit_length :: "int \<Rightarrow> nat" where
  "bit_length a = (if a \<le> 0 then 0 else Suc (bit_length (a div 2)))"
  by pat_completeness auto
termination
  by (relation "measure nat") auto

declare bit_length.simps [simp del]

text \<open>
  \<open>float(i)\<close>: the value of the double nearest to \<open>i\<close>, a tie going to the even
  significand of 53 bits; \<open>None\<close> when \<open>i\<close> is beyond the range of a double.
\<close>

definition float_of_int :: "int \<Rightarrow> int option" where
  "float_of_int i =
     (let a = \<bar>i\<bar>
      in if a < 2 ^ 53 then Some i
         else let e = bit_length a - 53;
                  q = a div 2 ^ e;
                  r = a mod 2 ^ e;
                  half = 2 ^ (e - 1);
                  q' = (if half < r \<or> (r = half \<and> odd q) then q + 1 else q);
                  v = q' * 2 ^ e
              in if 2 ^ 1024 \<le> v then None
                 else Some (if 0 \<le> i then v else - v))"

text \<open>
  The shortest decimal that reads back as the float of value \<open>a\<close>, for \<open>a\<close> from
  \<open>10 ^ 16\<close> on: with \<open>n\<close> significant digits, \<open>n\<close> from 1 to 17, the two
  neighbours of \<open>a\<close> are tried, and of two that read back as \<open>a\<close> the nearer is
  taken.
\<close>

fun shortest_decimal :: "nat \<Rightarrow> nat \<Rightarrow> int \<Rightarrow> int" where
  "shortest_decimal 0 n a = a"
| "shortest_decimal (Suc fuel) n a =
     (let p = 10 ^ (length (str_int a) - n);
          lo = (a div p) * p;
          hi = lo + p;
          ok_lo = (0 < lo \<and> float_of_int lo = Some a);
          ok_hi = (float_of_int hi = Some a)
      in if ok_lo \<and> ok_hi
         then (if a - lo < hi - a \<or> (a - lo = hi - a \<and> even (lo div p)) then lo else hi)
         else if ok_lo then lo
         else if ok_hi then hi
         else shortest_decimal fuel (Suc n) a)"

text \<open>
  \<open>repr\<close> of the float of value \<open>j\<close>, which is its \<open>str\<close>: below \<open>10 ^ 16\<close> the
  digits of \<open>j\<close> and \<open>.0\<close>; from there on the shortest decimal in the form
  \<open>d.ddde+XX\<close>.
\<close>

definition scientific :: "int \<Rightarrow> string" where
  "scientific c =
     (let s = str_int c;
          m = rev (dropWhile (\<lambda>d. d = CHR ''0'') (rev s));
          ex = int (length s) - 1
      in hd m # (if tl m = [] then [] else CHR ''.'' # tl m) @ ''e+'' @
         (if ex < 10 then CHR ''0'' # str_int ex else str_int ex))"

definition float_repr :: "int \<Rightarrow> string" where
  "float_repr j =
     (let a = \<bar>j\<bar>;
          digits = (if a < 10 ^ 16 then str_int a @ ''.0'' else scientific (shortest_decimal 17 1 a))
      in if j < 0 then CHR ''-'' # digits else digits)"

text \<open>
  \<open>str(x)\<close>: a string is itself, an integer is its decimal numeral, a boolean is
  \<open>True\<close> or \<open>False\<close>, a float is its \<open>repr\<close>, \<open>nan\<close> is \<open>nan\<close> and \<open>None\<close> is
  \<open>None\<close>.
\<close>

fun py_str :: "cell \<Rightarrow> string" where
  "py_str (StrV s) = s"
| "py_str (IntV i) = str_int i"
| "py_str (BoolV b) = (if b then ''True'' else ''False'')"
| "py_str (FloatV j) = float_repr j"
| "py_str NaN = ''nan''"
| "py_str NoneV = ''None''"

text \<open>Truth value of a cell, as \<open>if x\<close> tests it.\<close>

fun py_truthy :: "cell \<Rightarrow> bool" where
  "py_truthy (StrV s) = (s \<noteq> [])"
| "py_truthy (IntV i) = (i \<noteq> 0)"
| "py_truthy (BoolV b) = b"
| "py_truthy (FloatV j) = (j \<noteq> 0)"
| "py_truthy NaN = True"
| "py_truthy NoneV = False"

subsection \<open>Character classes\<close>

text \<open>
  \<open>str.isspace\<close>, which is also the class \<open>\s\<close> of a \<open>str\<close> pattern: below 256 these
  are the code points 9 to 13, 28 to 32, 133 and 160.
\<close>

definition is_space :: "char \<Rightarrow> bool" where
  "is_space c = (c \<in> set [CHR 0x09, CHR 0x0A, CHR 0x0B, CHR 0x0C, CHR 0x0D,
                           CHR 0x1C, CHR 0x1D, CHR 0x1E, CHR 0x1F, CHR 0x20,
                           CHR 0x85, CHR 0xA0])"

text \<open>The class \<open>\d\<close> of a \<open>str\<close> pattern: below 256 the decimal digits are 0 to 9.\<close>

definition is_digit :: "char \<Rightarrow> bool" where
  "is_digit c = (c \<in> set ''0123456789'')"

definition is_ascii_letter :: "char \<Rightarrow> bool" where
  "is_ascii_letter c =
     (c \<in> set ''abcdefghijklmnopqrstuvwxyzABCDEFGHIJKLMNOPQRSTUVWXYZ'')"

subsection \<open>String methods\<close>

text \<open>\<open>s.strip()\<close>: leading and trailing whitespace removed.\<close>

definition py_strip :: "string \<Rightarrow> string" where
  "py_strip s = rev (dropWhile is_space (rev (dropWhile is_space s)))"

text \<open>
  \<open>s.lower()\<close>: below 256 the cased capitals are A to Z and the code points 192 to
  222 without 215; each has its small letter 32 places further.
\<close>

definition lower_char :: "char \<Rightarrow> char" where
  "lower_char c =
     (let n = (of_char c :: nat)
      in if (65 \<le> n \<and> n \<le> 90) \<or> (192 \<le> n \<and> n \<le> 222 \<and> n \<noteq> 215)
         then char_of (n + 32) else c)"

definition py_lower :: "string \<Rightarrow> string" where
  "py_lower s = map lower_char s"

text \<open>\<open>s.replace(a, b)\<close> for single characters \<open>a\<close> and \<open>b\<close>.\<close>

definition py_replace :: "char \<Rightarrow> char \<Rightarrow> string \<Rightarrow> string" where
  "py_replace a b s = map (\<lambda>c. if c = a then b else c) s"

text \<open>
  \<open>s.zfill(width)\<close>: zeros on the left up to \<open>width\<close>, after a leading sign when
  there is one.
\<close>

definition py_zfill :: "string \<Rightarrow> int \<Rightarrow> string" where
  "py_zfill s width =
     (if width \<le> int (length s) then s
      else let pad = replicate (nat (width - int (length s))) (CHR ''0'')
           in case s of
                [] \<Rightarrow> pad
              | c # rest \<Rightarrow>
                  if c = CHR ''+'' \<or> c = CHR ''-'' then c # pad @ rest else pad @ s)"

text \<open>\<open>s[:k]\<close>: a negative \<open>k\<close> counts from the end.\<close>

definition py_slice_to :: "string \<Rightarrow> int \<Rightarrow> string" where
  "py_slice_to s k = (if 0 \<le> k then take (nat k) s else take (nat (int (length s) + k)) s)"

text \<open>
  \<open>re.sub(pattern, '', s)\<close> for a pattern that is one character class: every
  character of the class is deleted.
\<close>

definition re_sub_class :: "(char \<Rightarrow> bool) \<Rightarrow> string \<Rightarrow> string" where
  "re_sub_class in_class s = filter (\<lambda>c. \<not> in_class c) s"

text \<open>The class \<open>\D\<close>.\<close>

definition class_non_digit :: "char \<Rightarrow> bool" where
  "class_non_digit c = (\<not> is_digit c)"

text \<open>The class \<open>[^a-zA-Z0-9\s]\<close>.\<close>

definition class_special :: "char \<Rightarrow> bool" where
  "class_special c = (\<not> (is_ascii_letter c \<or> is_digit c \<or> is_space c))"


section \<open>Series and DataFrames\<close>

text \<open>
  A column is a named Series with a dtype tag and its cells. A DataFrame is its row
  labels (the index) and its columns in order. Only the dtypes a cell of the model
  can have are kept. \<open>FloatV j\<close> is a float when \<open>j\<close> is the value of a double.
\<close>

datatype dtype = DObject | DInt64 | DUInt64 | DBool | DFloat64

record series =
  name :: string
  dtype :: dtype
  vals :: "cell list"

record dataframe =
  index :: "int list"
  columns :: "series list"

fun conforms :: "dtype \<Rightarrow> cell \<Rightarrow> bool" where
  "conforms DObject _ = True"
| "conforms DInt64 (IntV i) = (- (2 ^ 63) \<le> i \<and> i < 2 ^ 63)"
| "conforms DUInt64 (IntV i) = (0 \<le> i \<and> i < 2 ^ 64)"
| "conforms DBool (BoolV _) = True"
| "conforms DFloat64 NaN = True"
| "conforms DFloat64 (FloatV j) = (float_of_int j = Some j)"
| "conforms _ _ = False"

text \<open>
  A well-formed DataFrame: column names are unique, every column has one cell per
  row label, and the cells of a column are of its dtype.
\<close>

definition wf_frame :: "dataframe \<Rightarrow> bool" where
  "wf_frame df =
     (distinct (map name (columns df)) \<and>
      list_all (\<lambda>s. length (vals s) = length (index df) \<and>
                     list_all (conforms (dtype s)) (vals s)) (columns df))"

text \<open>\<open>column in df.columns\<close>.\<close>

definition has_column :: "dataframe \<Rightarrow> string \<Rightarrow> bool" where
  "has_column df column = (column \<in> set (map name (columns df)))"

text \<open>\<open>len(df)\<close>.\<close>

definition len_df :: "dataframe \<Rightarrow> nat" where
  "len_df df = length (index df)"

datatype error =
    ValueError string
  | KeyError string
  | AttributeError
  | TypeError

text \<open>
  A printed line. \<open>WarnLine t\<close> is the line that starts with the warning sign
  U+26A0 and a space and goes on with \<open>t\<close>; \<open>ErrorExporting\<close> is the line
  \<open>Error exporting to Excel:\<close> followed by the text of the exception caught.
\<close>

datatype message = Line string | WarnLine string | ErrorExporting

text \<open>The text \<open>The column '{column}' does not exist in the DataFrame.\<close>\<close>

definition column_missing :: "string \<Rightarrow> string" where
  "column_missing column =
     ''The column '' @ [CHR 0x27] @ column @ [CHR 0x27] @ '' does not exist in the DataFrame.''"

text \<open>
  What a call leaves behind: the caller's DataFrame after the call, the lines
  printed, and the value returned or the exception raised.
\<close>

record 'a outcome =
  caller_df :: dataframe
  printed :: "message list"
  returned :: "error + 'a"

text \<open>\<open>df[column]\<close>: the column of that name; \<open>KeyError\<close> when there is none.\<close>

definition getitem :: "dataframe \<Rightarrow> string \<Rightarrow> error + series" where
  "getitem df column =
     (case find (\<lambda>s. name s = column) (columns df) of
        None \<Rightarrow> Inl (KeyError column)
      | Some s \<Rightarrow> Inr s)"

text \<open>The cells of a column, for statements about a result.\<close>

definition column_vals :: "dataframe \<Rightarrow> string \<Rightarrow> cell list" where
  "column_vals df column =
     (case find (\<lambda>s. name s = column) (columns df) of None \<Rightarrow> [] | Some s \<Rightarrow> vals s)"

text \<open>
  \<open>df[column] = s\<close>: the column of that name is replaced by the Series \<open>s\<close>, dtype
  and cells; a new name is added as the last column.
\<close>

definition setitem :: "dataframe \<Rightarrow> string \<Rightarrow> series \<Rightarrow> dataframe" where
  "setitem df column s =
     (if has_column df column
      then df\<lparr>columns := map (\<lambda>c. if name c = column then c\<lparr>dtype := dtype s, vals := vals s\<rparr> else c)
                              (columns df)\<rparr>
      else df\<lparr>columns := columns df @ [s\<lparr>name := column\<rparr>]\<rparr>)"

text \<open>
  \<open>df.loc[:, column] = s\<close>: the cells of the existing column are overwritten in
  place, so the column keeps its dtype; a new name is added as the last column.
\<close>

definition loc_setitem :: "dataframe \<Rightarrow> string \<Rightarrow> series \<Rightarrow> dataframe" where
  "loc_setitem df column s =
     (if has_column df column
      then df\<lparr>columns := map (\<lambda>c. if name c = column then c\<lparr>vals := vals s\<rparr> else c) (columns df)\<rparr>
      else df\<lparr>columns := columns df @ [s\<lparr>name := column\<rparr>]\<rparr>)"

text \<open>Boolean indexing \<open>xs[mask]\<close>: the entries whose mask bit is set, in order.\<close>

fun take_mask :: "bool list \<Rightarrow> 'a list \<Rightarrow> 'a list" where
  "take_mask (b # bs) (x # xs) = (if b then x # take_mask bs xs else take_mask bs xs)"
| "take_mask _ _ = []"

text \<open>\<open>df[mask]\<close>: the rows whose mask bit is set, with their labels.\<close>

definition getitem_mask :: "dataframe \<Rightarrow> bool list \<Rightarrow> dataframe" where
  "getitem_mask df bits =
     \<lparr>index = take_mask bits (index df),
      columns = map (\<lambda>c. c\<lparr>vals := take_mask bits (vals c)\<rparr>) (columns df)\<rparr>"

text \<open>Row \<open>i\<close>: its label and its cells, one per column.\<close>

definition row_at :: "dataframe \<Rightarrow> nat \<Rightarrow> int \<times> cell list" where
  "row_at df i = (index df ! i, map (\<lambda>c. vals c ! i) (columns df))"

definition rows_of :: "dataframe \<Rightarrow> (int \<times> cell list) list" where
  "rows_of df = map (row_at df) [0..<length (index df)]"

fun is_bool :: "cell \<Rightarrow> bool" where
  "is_bool (BoolV _) = True"
| "is_bool _ = False"

fun is_int :: "cell \<Rightarrow> bool" where
  "is_int (IntV _) = True"
| "is_int _ = False"

fun is_float :: "cell \<Rightarrow> bool" where
  "is_float (FloatV _) = True"
| "is_float _ = False"

text \<open>
  \<open>Series.apply\<close> hands the objects its function returned to pandas'
  \<open>maybe_convert_objects\<close>, which looks for a NumPy dtype that holds them all. It
  scans the objects in order and notes the kinds it has seen. A string ends the scan:
  the result stays an object column. So does an integer outside 64 bits, or a mix of
  negative integers and integers from \<open>2 ^ 63\<close> on, unless a \<open>None\<close> came before it.
  pandas converts every integer it scans to a float and raises on one beyond the
  range of a float; such integers are beyond the model, which ends the scan there
  and keeps the objects.
\<close>

record seen =
  seen_null :: bool
  seen_nan :: bool
  seen_bool :: bool
  seen_float :: bool
  seen_int :: bool
  seen_uint :: bool
  seen_sint :: bool

definition nothing_seen :: seen where
  "nothing_seen =
     \<lparr>seen_null = False, seen_nan = False, seen_bool = False, seen_float = False, seen_int = False,
      seen_uint = False, seen_sint = False\<rparr>"

text \<open>\<open>None\<close> for a scan that ended early, with the objects kept.\<close>

fun scan :: "seen \<Rightarrow> cell list \<Rightarrow> seen option" where
  "scan sn [] = Some sn"
| "scan sn (NoneV # vs) = scan (sn\<lparr>seen_null := True\<rparr>) vs"
| "scan sn (NaN # vs) = scan (sn\<lparr>seen_nan := True\<rparr>) vs"
| "scan sn (BoolV b # vs) = scan (sn\<lparr>seen_bool := True\<rparr>) vs"
| "scan sn (FloatV j # vs) = scan (sn\<lparr>seen_float := True\<rparr>) vs"
| "scan sn (IntV i # vs) =
     (if float_of_int i = None then None
      else if seen_null sn then scan (sn\<lparr>seen_int := True\<rparr>) vs
      else let sn' = sn\<lparr>seen_int := True,
                          seen_uint := seen_uint sn \<or> (2 ^ 63 \<le> i \<and> i < 2 ^ 64),
                          seen_sint := seen_sint sn \<or> (- (2 ^ 63) \<le> i \<and> i < 0)\<rparr>
           in if (seen_uint sn' \<and> seen_sint sn') \<or> 2 ^ 64 \<le> i \<or> i < - (2 ^ 63) then None
              else scan sn' vs)"
| "scan sn (StrV s # vs) = None"

text \<open>A cell of a float column: \<open>None\<close> and \<open>nan\<close> are \<open>nan\<close>, an integer is its float.\<close>

fun as_float :: "cell \<Rightarrow> cell" where
  "as_float (IntV i) = (case float_of_int i of Some j \<Rightarrow> FloatV j | None \<Rightarrow> IntV i)"
| "as_float NoneV = NaN"
| "as_float v = v"

text \<open>
  The dtype found and the cells in it. Booleans give a \<open>bool\<close> column when there is
  nothing else, and objects otherwise. With a missing value, floats, integers and
  \<open>nan\<close> give a \<open>float64\<close> column, and \<open>None\<close> alone stays as objects. Without one,
  floats, or floats and integers, give \<open>float64\<close>, and integers alone \<open>int64\<close> or
  \<open>uint64\<close>.
\<close>

definition maybe_convert_objects :: "cell list \<Rightarrow> dtype \<times> cell list" where
  "maybe_convert_objects objects =
     (case scan nothing_seen objects of
        None \<Rightarrow> (DObject, objects)
      | Some sn \<Rightarrow>
          if seen_bool sn
          then (if seen_float sn \<or> seen_int sn \<or> seen_nan sn \<or> seen_null sn then (DObject, objects)
                else (DBool, objects))
          else if seen_null sn \<or> seen_nan sn
          then (if seen_float sn \<or> seen_int sn \<or> seen_nan sn then (DFloat64, map as_float objects)
                else (DObject, objects))
          else if seen_float sn then (DFloat64, map as_float objects)
          else if seen_int sn then (if seen_uint sn then (DUInt64, objects) else (DInt64, objects))
          else (DObject, objects))"

text \<open>
  \<open>s.apply(f)\<close>: \<open>f\<close> on every cell, in order; an exception of \<open>f\<close> ends the
  call. The result of an empty Series is an empty Series of the same dtype.
\<close>

fun apply_values :: "(cell \<Rightarrow> error + cell) \<Rightarrow> cell list \<Rightarrow> error + cell list" where
  "apply_values f [] = Inr []"
| "apply_values f (v # vs) =
     (case f v of
        Inl e \<Rightarrow> Inl e
      | Inr r \<Rightarrow> (case apply_values f vs of Inl e \<Rightarrow> Inl e | Inr rs \<Rightarrow> Inr (r # rs)))"

definition with_result :: "series \<Rightarrow> cell list \<Rightarrow> series" where
  "with_result s rs =
     (if rs = [] then s\<lparr>vals := []\<rparr>
      else s\<lparr>dtype := fst (maybe_convert_objects rs), vals := snd (maybe_convert_objects rs)\<rparr>)"

definition series_apply :: "(cell \<Rightarrow> error + cell) \<Rightarrow> series \<Rightarrow> error + series" where
  "series_apply f s =
     (case apply_values f (vals s) of
        Inl e \<Rightarrow> Inl e
      | Inr rs \<Rightarrow> Inr (with_result s rs))"

text \<open>\<open>s.astype(str)\<close>: every cell becomes its \<open>str\<close>; the dtype is \<open>object\<close>.\<close>

definition astype_str :: "series \<Rightarrow> series" where
  "astype_str s = s\<lparr>dtype := DObject, vals := map (\<lambda>v. StrV (py_str v)) (vals s)\<rparr>"

section \<open>remove_duplicates\<close>

text \<open>
  The key under which \<open>duplicated\<close> looks a cell up. Its hash table compares Python
  objects with \<open>==\<close>, under which \<open>True\<close> is \<open>1\<close> and \<open>False\<close> is \<open>0\<close> and a float
  is the integer of its value, and takes \<open>nan\<close> to equal \<open>nan\<close>.
\<close>

fun dup_key :: "cell \<Rightarrow> cell" where
  "dup_key (BoolV b) = IntV (if b then 1 else 0)"
| "dup_key (FloatV j) = IntV j"
| "dup_key v = v"

text \<open>
  \<open>s.duplicated(keep='first')\<close>: a cell is marked when its key has been seen in an
  earlier row.
\<close>

fun duplicated_from :: "cell list \<Rightarrow> cell list \<Rightarrow> bool list" where
  "duplicated_from seen [] = []"
| "duplicated_from seen (v # vs) =
     (dup_key v \<in> set seen) # duplicated_from (dup_key v # seen) vs"

definition duplicated :: "series \<Rightarrow> bool list" where
  "duplicated s = duplicated_from [] (vals s)"

text \<open>
  \<open>df.drop_duplicates(subset=[column], keep='first')\<close>: the rows not marked by
  \<open>duplicated\<close> on that column; a new DataFrame.
\<close>

definition drop_duplicates :: "dataframe \<Rightarrow> string \<Rightarrow> error + dataframe" where
  "drop_duplicates df column =
     (case getitem df column of
        Inl e \<Rightarrow> Inl e
      | Inr s \<Rightarrow> Inr (getitem_mask df (map Not (duplicated s))))"

definition remove_duplicates :: "dataframe \<Rightarrow> string \<Rightarrow> dataframe outcome" where
  "remove_duplicates df column =
     (if \<not> has_column df column
      then \<lparr>caller_df = df, printed = [], returned = Inl (ValueError (column_missing column))\<rparr>
      else \<lparr>caller_df = df, printed = [], returned = drop_duplicates df column\<rparr>)"


section \<open>strip_dataframe\<close>

text \<open>
  \<open>col.str.strip()\<close> on an object column. The accessor refuses data that holds no
  string and is not of mixed kinds: the cells that are not missing are all numbers
  (integers, floats) or all booleans. Otherwise every string is stripped, a missing cell stays as it
  is, and any other cell becomes \<open>nan\<close>. The result is an object column.
\<close>

fun strip_value :: "cell \<Rightarrow> cell" where
  "strip_value (StrV s) = StrV (py_strip s)"
| "strip_value NaN = NaN"
| "strip_value NoneV = NoneV"
| "strip_value _ = NaN"

definition str_accessor_ok :: "cell list \<Rightarrow> bool" where
  "str_accessor_ok vs =
     (let xs = filter (\<lambda>v. \<not> pd_isna v) vs
      in xs = [] \<or> \<not> (list_all (\<lambda>v. is_int v \<or> is_float v) xs \<or> list_all is_bool xs))"

definition str_strip :: "series \<Rightarrow> error + series" where
  "str_strip col =
     (if str_accessor_ok (vals col)
      then Inr (col\<lparr>vals := map strip_value (vals col)\<rparr>)
      else Inl AttributeError)"

text \<open>The function applied to each column.\<close>

definition strip_column :: "series \<Rightarrow> error + series" where
  "strip_column col = (if dtype col = DObject then str_strip col else Inr col)"

text \<open>
  \<open>df.apply(f)\<close>: \<open>f\<close> on every column, in order; the results are the columns of a
  new DataFrame with the same index.
\<close>

fun apply_columns :: "(series \<Rightarrow> error + series) \<Rightarrow> series list \<Rightarrow> error + series list" where
  "apply_columns f [] = Inr []"
| "apply_columns f (c # cs) =
     (case f c of
        Inl e \<Rightarrow> Inl e
      | Inr r \<Rightarrow> (case apply_columns f cs of Inl e \<Rightarrow> Inl e | Inr rs \<Rightarrow> Inr (r # rs)))"

definition strip_dataframe :: "dataframe \<Rightarrow> dataframe outcome" where
  "strip_dataframe df =
     \<lparr>caller_df = df, printed = [],
      returned = (case apply_columns strip_column (columns df) of
                    Inl e \<Rightarrow> Inl e
                  | Inr cs \<Rightarrow> Inr (df\<lparr>columns := cs\<rparr>))\<rparr>"

section \<open>filter_dataframe\<close>

text \<open>
  \<open>s == parameter\<close>, cell by cell: a missing value on either side compares
  unequal; otherwise Python's \<open>==\<close>, under which \<open>True\<close> is \<open>1\<close> and \<open>1.0\<close>.
\<close>

definition cell_eq :: "cell \<Rightarrow> cell \<Rightarrow> bool" where
  "cell_eq v w = (\<not> pd_isna v \<and> \<not> pd_isna w \<and> dup_key v = dup_key w)"

definition series_eq :: "series \<Rightarrow> cell \<Rightarrow> bool list" where
  "series_eq s parameter = map (\<lambda>v. cell_eq v parameter) (vals s)"

text \<open>\<open>s != parameter\<close>.\<close>

definition series_ne :: "series \<Rightarrow> cell \<Rightarrow> bool list" where
  "series_ne s parameter = map (\<lambda>v. \<not> cell_eq v parameter) (vals s)"

definition filter_dataframe :: "dataframe \<Rightarrow> string \<Rightarrow> cell \<Rightarrow> dataframe option outcome" where
  "filter_dataframe df column parameter =
     (if \<not> has_column df column
      then \<lparr>caller_df = df, printed = [Line (column_missing column)], returned = Inr None\<rparr>
      else \<lparr>caller_df = df, printed = [],
            returned = (case getitem df column of
                          Inl e \<Rightarrow> Inl e
                        | Inr s \<Rightarrow> Inr (Some (getitem_mask df (series_eq s parameter))))\<rparr>)"

section \<open>clean_special_characters\<close>

definition clean_text :: "cell \<Rightarrow> cell" where
  "clean_text v =
     (case v of
        StrV s \<Rightarrow> StrV (re_sub_class class_special (py_replace (CHR ''&'') (CHR ''E'') s))
      | _ \<Rightarrow> v)"

text \<open>The DataFrame is changed in place and is the value returned.\<close>

definition clean_special_characters :: "dataframe \<Rightarrow> string \<Rightarrow> dataframe option outcome" where
  "clean_special_characters df column =
     (if \<not> has_column df column
      then \<lparr>caller_df = df, printed = [Line (column_missing column)], returned = Inr None\<rparr>
      else (case getitem df column of
              Inl e \<Rightarrow> \<lparr>caller_df = df, printed = [], returned = Inl e\<rparr>
            | Inr s \<Rightarrow>
                (case series_apply (\<lambda>v. Inr (clean_text v)) s of
                   Inl e \<Rightarrow> \<lparr>caller_df = df, printed = [], returned = Inl e\<rparr>
                 | Inr s' \<Rightarrow>
                     \<lparr>caller_df = loc_setitem df column s', printed = [],
                      returned = Inr (Some (loc_setitem df column s'))\<rparr>)))"

section \<open>lowercase_dataframe\<close>

definition lower_value :: "cell \<Rightarrow> cell" where
  "lower_value x = (case x of StrV s \<Rightarrow> StrV (py_lower s) | _ \<Rightarrow> x)"

definition lowercase_dataframe :: "dataframe \<Rightarrow> string \<Rightarrow> dataframe option outcome" where
  "lowercase_dataframe df column =
     (if \<not> has_column df column
      then \<lparr>caller_df = df, printed = [Line (column_missing column)], returned = Inr None\<rparr>
      else (case getitem df column of
              Inl e \<Rightarrow> \<lparr>caller_df = df, printed = [], returned = Inl e\<rparr>
            | Inr s \<Rightarrow>
                (case series_apply (\<lambda>x. Inr (lower_value x)) s of
                   Inl e \<Rightarrow> \<lparr>caller_df = df, printed = [], returned = Inl e\<rparr>
                 | Inr s' \<Rightarrow>
                     \<lparr>caller_df = setitem df column s', printed = [],
                      returned = Inr (Some (setitem df column s'))\<rparr>)))"

section \<open>format_document\<close>

definition process :: "int \<Rightarrow> cell \<Rightarrow> cell" where
  "process size' doc =
     (if pd_isna doc \<or> py_lower (py_strip (py_str doc)) \<in> set [[], ''nan'', ''none'']
      then NoneV
      else let doc_str = py_strip (py_str doc);
               doc_numeric = re_sub_class class_non_digit doc_str
           in StrV (if int (length doc_numeric) < size' then py_zfill doc_numeric size'
                    else if int (length doc_numeric) > size' then py_slice_to doc_numeric size'
                    else doc_numeric))"

text \<open>The work is done on a copy, which is the value returned.\<close>

definition format_document :: "dataframe \<Rightarrow> string \<Rightarrow> int \<Rightarrow> dataframe option outcome" where
  "format_document df column size' =
     (if \<not> has_column df column
      then \<lparr>caller_df = df, printed = [WarnLine (column_missing column)], returned = Inr None\<rparr>
      else \<lparr>caller_df = df, printed = [],
            returned = (case getitem df column of
                          Inl e \<Rightarrow> Inl e
                        | Inr s \<Rightarrow>
                            (case series_apply (\<lambda>doc. Inr (process size' doc)) s of
                               Inl e \<Rightarrow> Inl e
                             | Inr s' \<Rightarrow> Inr (Some (setitem df column s'))))\<rparr>)"

section \<open>drop_column\<close>

text \<open>\<open>df.drop(columns=[column])\<close>: a new DataFrame without the columns of that name.\<close>

definition drop_columns :: "dataframe \<Rightarrow> string \<Rightarrow> dataframe" where
  "drop_columns df column = df\<lparr>columns := filter (\<lambda>c. name c \<noteq> column) (columns df)\<rparr>"

definition drop_column :: "dataframe \<Rightarrow> string \<Rightarrow> dataframe option outcome" where
  "drop_column df column =
     (if has_column df column
      then \<lparr>caller_df = df, printed = [], returned = Inr (Some (drop_columns df column))\<rparr>
      else \<lparr>caller_df = df, printed = [], returned = Inr None\<rparr>)"

section \<open>filter_by_different_char_count\<close>

text \<open>\<open>len(x)\<close>: the length of a string; \<open>TypeError\<close> on the other kinds of cell.\<close>

definition py_len :: "cell \<Rightarrow> error + cell" where
  "py_len x = (case x of StrV s \<Rightarrow> Inr (IntV (int (length s))) | _ \<Rightarrow> Inl TypeError)"

text \<open>
  The column is converted in the caller's DataFrame; the rows selected are a new
  DataFrame.
\<close>

definition filter_by_different_char_count :: "dataframe \<Rightarrow> string \<Rightarrow> int \<Rightarrow> dataframe outcome" where
  "filter_by_different_char_count df column char_count =
     (if \<not> has_column df column
      then \<lparr>caller_df = df, printed = [], returned = Inl (ValueError (column_missing column))\<rparr>
      else (case getitem df column of
              Inl e \<Rightarrow> \<lparr>caller_df = df, printed = [], returned = Inl e\<rparr>
            | Inr s \<Rightarrow>
                (let df1 = setitem df column (astype_str s)
                 in \<lparr>caller_df = df1, printed = [],
                     returned =
                       (case getitem df1 column of
                          Inl e \<Rightarrow> Inl e
                        | Inr s1 \<Rightarrow>
                            (case series_apply py_len s1 of
                               Inl e \<Rightarrow> Inl e
                             | Inr lens \<Rightarrow>
                                 Inr (getitem_mask df1 (series_ne lens (IntV char_count)))))\<rparr>)))"

section \<open>limit_column_size\<close>

text \<open>\<open>x[:limit] if x else x\<close>; only a string can be sliced.\<close>

definition limit_value :: "int \<Rightarrow> cell \<Rightarrow> error + cell" where
  "limit_value limit x =
     (if py_truthy x
      then (case x of StrV s \<Rightarrow> Inr (StrV (py_slice_to s limit)) | _ \<Rightarrow> Inl TypeError)
      else Inr x)"

definition limit_column_size :: "dataframe \<Rightarrow> string \<Rightarrow> int \<Rightarrow> dataframe outcome" where
  "limit_column_size df column limit =
     (let df_copy = df
      in if \<not> has_column df_copy column
         then \<lparr>caller_df = df, printed = [], returned = Inl (ValueError (column_missing column))\<rparr>
         else \<lparr>caller_df = df, printed = [],
               returned =
                 (case getitem df_copy column of
                    Inl e \<Rightarrow> Inl e
                  | Inr s \<Rightarrow>
                      (let df1 = setitem df_copy column (astype_str s)
                       in case getitem df1 column of
                            Inl e \<Rightarrow> Inl e
                          | Inr s1 \<Rightarrow>
                              (case series_apply (limit_value limit) s1 of
                                 Inl e \<Rightarrow> Inl e
                               | Inr s2 \<Rightarrow> Inr (setitem df1 column s2))))\<rparr>)"

section \<open>format_phone_number\<close>

text \<open>\<open>re.sub\<close> takes a string; \<open>TypeError\<close> on the other kinds of cell.\<close>

definition process_phone :: "cell \<Rightarrow> error + cell" where
  "process_phone phone =
     (case phone of
        StrV s \<Rightarrow> Inr (StrV (re_sub_class class_non_digit s))
      | _ \<Rightarrow> Inl TypeError)"

definition format_phone_number :: "dataframe \<Rightarrow> string \<Rightarrow> dataframe option outcome" where
  "format_phone_number df column =
     (if \<not> has_column df column
      then \<lparr>caller_df = df, printed = [Line (column_missing column)], returned = Inr None\<rparr>
      else \<lparr>caller_df = df, printed = [],
            returned =
              (case getitem df column of
                 Inl e \<Rightarrow> Inl e
               | Inr s \<Rightarrow>
                   (let df1 = setitem df column (astype_str s)
                    in case getitem df1 column of
                         Inl e \<Rightarrow> Inl e
                       | Inr s1 \<Rightarrow>
                           (case series_apply process_phone s1 of
                              Inl e \<Rightarrow> Inl e
                            | Inr s2 \<Rightarrow> Inr (Some (setitem df1 column s2)))))\<rparr>)"

section \<open>rename_column\<close>

text \<open>\<open>df.rename(columns={current_name: new_name})\<close>: a new DataFrame.\<close>

definition rename :: "dataframe \<Rightarrow> string \<Rightarrow> string \<Rightarrow> dataframe" where
  "rename df current_name new_name =
     df\<lparr>columns := map (\<lambda>c. if name c = current_name then c\<lparr>name := new_name\<rparr> else c) (columns df)\<rparr>"

text \<open>
  The exception raised for a missing column is a bare \<open>Exception\<close>, caught in the
  function; its text is empty, and the function goes on to return \<open>None\<close>.
\<close>

definition rename_column :: "dataframe \<Rightarrow> string \<Rightarrow> string \<Rightarrow> dataframe option outcome" where
  "rename_column df current_name new_name =
     (if \<not> has_column df current_name
      then \<lparr>caller_df = df,
            printed = [Line (column_missing current_name), Line ''Error renaming column: ''],
            returned = Inr None\<rparr>
      else \<lparr>caller_df = df, printed = [], returned = Inr (Some (rename df current_name new_name))\<rparr>)"


section \<open>dataframe_to_excel\<close>

text \<open>
  The worksheet is kept column by column: the header cell, then the data cells. A
  string is stored cut at 32767 characters; a string with a control character that
  a worksheet cannot hold (code points 0 to 8, 11, 12 and 14 to 31) is refused
  with an exception. Every exception raised in the function is caught by it; the
  model writes \<open>None\<close> for a step that raises.
\<close>

definition illegal_character :: "char \<Rightarrow> bool" where
  "illegal_character c =
     (let n = (of_char c :: nat) in n \<le> 8 \<or> n = 11 \<or> n = 12 \<or> (14 \<le> n \<and> n \<le> 31))"

fun stored :: "cell \<Rightarrow> cell" where
  "stored (StrV s) = StrV (take 32767 s)"
| "stored v = v"

definition bind_value :: "cell \<Rightarrow> cell option" where
  "bind_value v =
     (case stored v of
        StrV s \<Rightarrow> if list_ex illegal_character s then None else Some (StrV s)
      | w \<Rightarrow> Some w)"

text \<open>
  \<open>ws.append\<close> of the header and of every data row, seen from one column: the
  cells of that worksheet column.
\<close>

definition sheet_column :: "series \<Rightarrow> cell list option" where
  "sheet_column c = those (map bind_value (StrV (name c) # vals c))"

text \<open>\<open>max\<close> of a sequence; it raises on an empty one.\<close>

definition py_max :: "nat list \<Rightarrow> nat option" where
  "py_max xs = (case xs of [] \<Rightarrow> None | x # rest \<Rightarrow> Some (fold max rest x))"

text \<open>
  \<open>max(len(str(cell.value)) for cell in col if cell.value) + 2\<close> for one worksheet
  column.
\<close>

definition column_width :: "cell list \<Rightarrow> nat option" where
  "column_width col =
     map_option (\<lambda>max_length. max_length + 2)
       (py_max (map (\<lambda>v. length (py_str v)) (filter py_truthy col)))"

text \<open>
  \<open>chr(i)\<close>, for the code points a character of the model can have; \<open>None\<close> stands
  for a character beyond them.
\<close>

definition py_chr :: "int \<Rightarrow> char option" where
  "py_chr i = (if 0 \<le> i \<and> i < 256 then Some (char_of (nat i)) else None)"

text \<open>
  The last-column character and the row number of
  \<open>f"A1:{chr(65 + len(df.columns) - 1)}{num_rows}"\<close>.
\<close>

definition last_column_char :: "dataframe \<Rightarrow> char option" where
  "last_column_char df = py_chr (65 + int (length (columns df)) - 1)"

definition num_rows :: "dataframe \<Rightarrow> nat" where
  "num_rows df = len_df df + 1"

text \<open>\<open>s.upper()\<close> on the letters a to z; the other characters of a reference have no case.\<close>

definition upper_char :: "char \<Rightarrow> char" where
  "upper_char c =
     (let n = (of_char c :: nat) in if 97 \<le> n \<and> n \<le> 122 then char_of (n - 32) else c)"

text \<open>
  The reference a \<open>Table\<close> ends up with: openpyxl puts it in capitals, and a
  reference whose column is not made of the letters A to Z or a to z is refused with
  an exception, when the table is made or when the file is written.
\<close>

definition table_ref :: "dataframe \<Rightarrow> string option" where
  "table_ref df =
     (case last_column_char df of
        None \<Rightarrow> None
      | Some c \<Rightarrow>
          if is_ascii_letter c
          then Some (map upper_char (''A1:'' @ [c] @ str_nat (num_rows df)))
          else None)"

text \<open>
  \<open>column_letter\<close> of the cell in column \<open>n\<close>, counted from 1: A to Z, then AA,
  AB and so on.
\<close>

function get_column_letter :: "nat \<Rightarrow> string" where
  "get_column_letter n =
     (if n = 0 then []
      else get_column_letter ((n - 1) div 26) @ [char_of (65 + (n - 1) mod 26)])"
  by pat_completeness auto
termination
  by (relation "measure id") auto

declare get_column_letter.simps [simp del]

record table_style =
  style_name :: string
  showFirstColumn :: bool
  showLastColumn :: bool
  showRowStripes :: bool
  showColumnStripes :: bool

record workbook =
  title :: string
  sheet_columns :: "cell list list"
  header_bold :: bool
  displayName :: string
  ref :: string
  tableStyleInfo :: table_style
  column_widths :: "(string \<times> nat) list"

text \<open>The workbook the function builds in memory, when no step raises.\<close>

definition build_workbook :: "dataframe \<Rightarrow> workbook option" where
  "build_workbook df =
     (case those (map sheet_column (columns df)) of
        None \<Rightarrow> None
      | Some cols \<Rightarrow>
          (case table_ref df of
             None \<Rightarrow> None
           | Some table_ref' \<Rightarrow>
               (case those (map column_width cols) of
                  None \<Rightarrow> None
                | Some widths \<Rightarrow>
                    Some \<lparr>title = ''extracted_data'',
                          sheet_columns = cols,
                          header_bold = True,
                          displayName = ''DataTable'',
                          ref = table_ref',
                          tableStyleInfo =
                            \<lparr>style_name = ''TableStyleMedium9'', showFirstColumn = False,
                             showLastColumn = False, showRowStripes = True,
                             showColumnStripes = False\<rparr>,
                          column_widths =
                            zip (map get_column_letter [1..<Suc (length cols)]) widths\<rparr>)))"

text \<open>\<open>os.path.join(directory, file_name)\<close> on a POSIX system.\<close>

definition path_join :: "string \<Rightarrow> string \<Rightarrow> string" where
  "path_join directory file_name =
     (if file_name \<noteq> [] \<and> hd file_name = CHR ''/'' then file_name
      else if directory = [] \<or> last directory = CHR ''/'' then directory @ file_name
      else directory @ ''/'' @ file_name)"

text \<open>
  The file system is a parameter: whether \<open>os.makedirs\<close> succeeds on a directory
  and whether a file can be written at a path.
\<close>

record filesystem =
  makedirs_ok :: "string \<Rightarrow> bool"
  save_ok :: "string \<Rightarrow> bool"

record export =
  saved :: "(string \<times> workbook) option"
  export_printed :: "message list"
  export_returned :: "string option"

definition dataframe_to_excel :: "filesystem \<Rightarrow> dataframe \<Rightarrow> string \<Rightarrow> string \<Rightarrow> export" where
  "dataframe_to_excel fs df directory file_name =
     (let failed = \<lparr>saved = None, export_printed = [ErrorExporting], export_returned = None\<rparr>
      in if \<not> makedirs_ok fs directory then failed
         else let file_path = path_join directory file_name
              in case build_workbook df of
                   None \<Rightarrow> failed
                 | Some wb \<Rightarrow>
                     if save_ok fs file_path
                     then \<lparr>saved = Some (file_path, wb), export_printed = [],
                           export_returned = Some file_path\<rparr>
                     else failed)"

text \<open>
  The width the specification gives a column: the length of the longest \<open>str\<close> of a
  cell, plus 2.
\<close>

definition longest_value_width :: "cell list \<Rightarrow> nat" where
  "longest_value_width cells = fold max (map (\<lambda>v. length (py_str v)) cells) 0 + 2"

section \<open>Example DataFrames\<close>

definition everything_ok :: filesystem where
  "everything_ok = \<lparr>makedirs_ok = (\<lambda>_. True), save_ok = (\<lambda>_. True)\<rparr>"


definition demo :: dataframe where
  "demo =
     \<lparr>index = [0, 1, 2, 3],
      columns =
        [\<lparr>name = ''k'', dtype = DObject, vals = [StrV ''x'', IntV 1, BoolV True, StrV ''x'']\<rparr>,
         \<lparr>name = ''doc'', dtype = DObject, vals = [StrV ''A&B #1!'', IntV 123, NaN, NoneV]\<rparr>,
         \<lparr>name = ''n'', dtype = DInt64, vals = [IntV 1, IntV 2, IntV 3, IntV 4]\<rparr>]\<rparr>"

definition padded :: dataframe where
  "padded =
     \<lparr>index = [0, 1, 2],
      columns =
        [\<lparr>name = ''t'', dtype = DObject, vals = [StrV ''  ab c '', IntV 7, NoneV]\<rparr>,
         \<lparr>name = ''n'', dtype = DInt64, vals = [IntV 1, IntV 2, IntV 3]\<rparr>]\<rparr>"

definition padded_stripped :: dataframe where
  "padded_stripped =
     \<lparr>index = [0, 1, 2],
      columns =
        [\<lparr>name = ''t'', dtype = DObject, vals = [StrV ''ab c'', NaN, NoneV]\<rparr>,
         \<lparr>name = ''n'', dtype = DInt64, vals = [IntV 1, IntV 2, IntV 3]\<rparr>]\<rparr>"


text \<open>
  The cell the specification gives for \<open>formatDocument\<close>, in its words: a missing
  value, an empty string and the strings \<open>nan\<close> and \<open>none\<close> in any case give the
  missing value; any other value is stringified and stripped to its digits, then
  padded on the left with \<open>0\<close> to the size, or cut to its first digits.
\<close>

definition claimed_document_cell :: "nat \<Rightarrow> cell \<Rightarrow> cell" where
  "claimed_document_cell n v =
     (if pd_isna v \<or> (case v of StrV s \<Rightarrow> s = [] \<or> py_lower s \<in> set [''nan'', ''none''] | _ \<Rightarrow> False)
      then NoneV
      else let d = filter is_digit (py_str v)
           in StrV (if length d < n then replicate (n - length d) (CHR ''0'') @ d else take n d))"

definition blank_doc :: dataframe where
  "blank_doc = \<lparr>index = [0], columns = [\<lparr>name = ''doc'', dtype = DObject, vals = [StrV '' '']\<rparr>]\<rparr>"

definition phones :: dataframe where
  "phones =
     \<lparr>index = [0, 1, 2, 3],
      columns =
        [\<lparr>name = ''phone'', dtype = DObject,
          vals = [StrV ''(11) 98888-7777'', IntV 5511, NaN, NoneV]\<rparr>,
         \<lparr>name = ''n'', dtype = DInt64, vals = [IntV 1, IntV 2, IntV 3, IntV 4]\<rparr>]\<rparr>"

definition none_phone :: dataframe where
  "none_phone = \<lparr>index = [0], columns = [\<lparr>name = ''phone'', dtype = DObject, vals = [NoneV]\<rparr>]\<rparr>"

definition lengths :: dataframe where
  "lengths =
     \<lparr>index = [10, 11, 12, 13],
      columns =
        [\<lparr>name = ''code'', dtype = DObject, vals = [StrV ''abc'', IntV 12, NaN, NoneV]\<rparr>,
         \<lparr>name = ''n'', dtype = DInt64, vals = [IntV 1, IntV 2, IntV 3, IntV 4]\<rparr>]\<rparr>"

text \<open>
  The positions of the cells whose \<open>str\<close> has a length other than \<open>n\<close>, in
  increasing order.
\<close>

definition rows_of_other_length :: "cell list \<Rightarrow> int \<Rightarrow> nat list" where
  "rows_of_other_length vs n = filter (\<lambda>i. int (length (py_str (vs ! i))) \<noteq> n) [0..<length vs]"

text \<open>A cell a worksheet accepts: \<open>ws.append\<close> does not raise on it.\<close>

definition storable :: "cell \<Rightarrow> bool" where
  "storable v = (bind_value v \<noteq> None)"

definition flags :: dataframe where
  "flags = \<lparr>index = [0], columns = [\<lparr>name = ''ab'', dtype = DBool, vals = [BoolV False]\<rparr>]\<rparr>"

section \<open>The values of a column\<close>

text \<open>
  The number a cell holds, when it holds one. Python's \<open>==\<close> compares numbers by
  their value whatever their kind: \<open>True\<close>, \<open>1\<close> and \<open>1.0\<close> are equal.
\<close>

fun number_of :: "cell \<Rightarrow> int option" where
  "number_of (IntV i) = Some i"
| "number_of (BoolV b) = Some (if b then 1 else 0)"
| "number_of (FloatV j) = Some j"
| "number_of _ = None"

text \<open>
  Two cells hold the same value: two numbers of equal value, or two cells that are
  no numbers and are the same string, both \<open>nan\<close> or both \<open>None\<close>.
\<close>

definition same_value :: "cell \<Rightarrow> cell \<Rightarrow> bool" where
  "same_value v w =
     (case (number_of v, number_of w) of
        (Some a, Some b) \<Rightarrow> a = b
      | (None, None) \<Rightarrow> v = w
      | _ \<Rightarrow> False)"

text \<open>Row \<open>i\<close> is the first of its value when no earlier row holds the same value.\<close>

definition first_of_its_value :: "cell list \<Rightarrow> nat \<Rightarrow> bool" where
  "first_of_its_value vs i = (\<not> list_ex (\<lambda>w. same_value w (vs ! i)) (take i vs))"

definition people :: dataframe where
  "people =
     \<lparr>index = [0, 1, 2, 3, 4, 5],
      columns =
        [\<lparr>name = ''who'', dtype = DObject,
          vals = [StrV ''ana'', StrV ''bob'', StrV ''ana'', NaN, NaN, StrV ''cid'']\<rparr>,
         \<lparr>name = ''n'', dtype = DInt64,
          vals = [IntV 1, IntV 2, IntV 3, IntV 4, IntV 5, IntV 6]\<rparr>]\<rparr>"

definition one_true :: dataframe where
  "one_true =
     \<lparr>index = [0, 1],
      columns = [\<lparr>name = ''k'', dtype = DObject, vals = [IntV 1, BoolV True]\<rparr>]\<rparr>"

section \<open>The letters of a cleaned string\<close>

text \<open>
  The letters among the characters of the model: A to Z and a to z, and beyond
  ASCII the code points 170, 181, 186, 192 to 214, 216 to 246 and 248 to 255, such
  as the accented letters of Portuguese.
\<close>

definition is_letter :: "char \<Rightarrow> bool" where
  "is_letter c =
     (let n = (of_char c :: nat)
      in (65 \<le> n \<and> n \<le> 90) \<or> (97 \<le> n \<and> n \<le> 122) \<or> n = 170 \<or> n = 181 \<or> n = 186 \<or>
         (192 \<le> n \<and> n \<le> 214) \<or> (216 \<le> n \<and> n \<le> 246) \<or> 248 \<le> n)"

text \<open>
  The cell the specification describes: in a string each \<open>&\<close> replaced with \<open>E\<close>,
  then every character deleted that is not a letter, a digit or whitespace; any
  other cell as it is.
\<close>

definition claimed_clean_text :: "cell \<Rightarrow> cell" where
  "claimed_clean_text v =
     (case v of
        StrV s \<Rightarrow>
          StrV (filter (\<lambda>c. is_letter c \<or> is_digit c \<or> is_space c)
                  (py_replace (CHR ''&'') (CHR ''E'') s))
      | _ \<Rightarrow> v)"

text \<open>An integer that a float can hold, rounded if need be; any other cell.\<close>

definition in_float_range :: "cell \<Rightarrow> bool" where
  "in_float_range v = (case v of IntV i \<Rightarrow> float_of_int i \<noteq> None | _ \<Rightarrow> True)"

definition cafe :: dataframe where
  "cafe =
     \<lparr>index = [0],
      columns =
        [\<lparr>name = ''place'', dtype = DObject,
          vals = [StrV (''Caf'' @ [CHR 0xE9] @ '' & Bar'')]\<rparr>]\<rparr>"

definition gaps :: dataframe where
  "gaps =
     \<lparr>index = [0, 1],
      columns = [\<lparr>name = ''g'', dtype = DObject, vals = [IntV 1, NoneV]\<rparr>]\<rparr>"

section \<open>Boolean indexing and the rows of a DataFrame\<close>

lemma take_mask_map: "take_mask bs (map f xs) = map f (take_mask bs xs)"
  by (induction bs xs rule: take_mask.induct) auto

lemma subseq_take_mask: "subseq (take_mask bs xs) xs"
  by (induction bs xs rule: take_mask.induct) auto

lemma take_mask_map_upt:
  "take_mask (map p xs) xs = filter p xs"
  by (induction xs) auto

lemma take_mask_nth:
  assumes "length bs = length xs"
  shows "take_mask bs xs = map ((!) xs) (filter ((!) bs) [0..<length xs])"
proof -
  have "take_mask bs [0..<length xs] = take_mask (map ((!) bs) [0..<length bs]) [0..<length xs]"
    by (simp add: map_nth)
  also have "\<dots> = filter ((!) bs) [0..<length xs]"
    using assms by (simp add: take_mask_map_upt)
  finally have "take_mask bs [0..<length xs] = filter ((!) bs) [0..<length xs]" .
  moreover have "take_mask bs xs = take_mask bs (map ((!) xs) [0..<length xs])"
    by (simp add: map_nth)
  ultimately show ?thesis by (simp add: take_mask_map)
qed

lemma length_duplicated_from: "length (duplicated_from seen vs) = length vs"
  by (induction vs arbitrary: seen) auto

lemma duplicated_from_nth:
  "i < length vs \<Longrightarrow>
   duplicated_from seen vs ! i = (dup_key (vs ! i) \<in> set seen \<union> set (map dup_key (take i vs)))"
proof (induction vs arbitrary: seen i)
  case Nil
  then show ?case by simp
next
  case (Cons v vs)
  show ?case
  proof (cases i)
    case 0
    then show ?thesis by simp
  next
    case (Suc j)
    with Cons.prems have "j < length vs" by simp
    from Cons.IH [OF this, of "dup_key v # seen"] Suc show ?thesis by auto
  qed
qed

lemma distinct_keys_kept:
  "distinct (map dup_key (take_mask (map Not (duplicated_from seen vs)) vs)) \<and>
   set (map dup_key (take_mask (map Not (duplicated_from seen vs)) vs)) \<inter> set seen = {} \<and>
   set (map dup_key (take_mask (map Not (duplicated_from seen vs)) vs)) \<subseteq> set (map dup_key vs)"
proof (induction vs arbitrary: seen)
  case Nil
  then show ?case by simp
next
  case (Cons v vs)
  from Cons.IH [of "dup_key v # seen"] show ?case by auto
qed

lemma wf_frame_lengths:
  "wf_frame df \<Longrightarrow> c \<in> set (columns df) \<Longrightarrow> length (vals c) = length (index df)"
  by (auto simp: wf_frame_def list_all_iff)

lemma find_name_list:
  "column \<in> set (map name cs) \<Longrightarrow>
   \<exists>s. find (\<lambda>s. name s = column) cs = Some s \<and> s \<in> set cs \<and> name s = column"
  by (induction cs) auto

lemma find_name_Some:
  "has_column df column \<Longrightarrow>
   \<exists>s. find (\<lambda>s. name s = column) (columns df) = Some s \<and> s \<in> set (columns df) \<and> name s = column"
  unfolding has_column_def by (rule find_name_list)

lemma rows_of_getitem_mask:
  assumes wf: "wf_frame df" and len: "length bits = length (index df)"
  shows "rows_of (getitem_mask df bits) = take_mask bits (rows_of df)"
proof -
  let ?K = "filter ((!) bits) [0..<length (index df)]"
  have idx: "take_mask bits (index df) = map ((!) (index df)) ?K"
    using len by (simp add: take_mask_nth)
  have col: "take_mask bits (vals c) = map ((!) (vals c)) ?K" if "c \<in> set (columns df)" for c
    using that wf len take_mask_nth [of bits "vals c"] by (simp add: wf_frame_lengths)
  have "rows_of (getitem_mask df bits) = map (row_at df) ?K"
  proof (rule nth_equalityI)
    show "length (rows_of (getitem_mask df bits)) = length (map (row_at df) ?K)"
      by (simp add: rows_of_def getitem_mask_def idx)
  next
    fix i assume "i < length (rows_of (getitem_mask df bits))"
    then have i: "i < length ?K" by (simp add: rows_of_def getitem_mask_def idx)
    then show "rows_of (getitem_mask df bits) ! i = map (row_at df) ?K ! i"
      using col by (simp add: rows_of_def getitem_mask_def row_at_def idx comp_def)
  qed
  moreover have "take_mask bits (rows_of df) = map (row_at df) ?K"
    using len take_mask_nth [of bits "rows_of df"]
    by (simp add: rows_of_def cong: map_cong) 
  ultimately show ?thesis by simp
qed


lemma find_name_map:
  "(\<And>c. name (f c) = name c) \<Longrightarrow>
   find (\<lambda>s. name s = column) (map f cs) = map_option f (find (\<lambda>s. name s = column) cs)"
  by (induction cs) auto

lemma column_vals_getitem_mask:
  "column_vals (getitem_mask df bits) column = take_mask bits (column_vals df column)"
proof -
  have "find (\<lambda>s. name s = column) (map (\<lambda>c. c\<lparr>vals := take_mask bits (vals c)\<rparr>) (columns df))
        = map_option (\<lambda>c. c\<lparr>vals := take_mask bits (vals c)\<rparr>) (find (\<lambda>s. name s = column) (columns df))"
    by (rule find_name_map) simp
  then show ?thesis
    by (cases "find (\<lambda>s. name s = column) (columns df)")
       (simp_all add: column_vals_def getitem_mask_def)
qed

lemma dup_key_same_value: "(dup_key v = dup_key w) = same_value w v"
  by (cases v; cases w) (auto simp: same_value_def)

lemma duplicated_first_of_its_value:
  assumes "i < length vs"
  shows "(\<not> duplicated_from [] vs ! i) = first_of_its_value vs i"
proof -
  have "(dup_key (vs ! i) \<in> dup_key ` set (take i vs)) =
        (\<exists>w\<in>set (take i vs). same_value w (vs ! i))"
    by (auto simp: image_iff dup_key_same_value)
  then show ?thesis
    using assms by (simp add: duplicated_from_nth first_of_its_value_def list_ex_iff)
qed

lemma kept_rows_first_of_its_value:
  "filter ((!) (map Not (duplicated_from [] vs))) [0..<length vs] =
   filter (first_of_its_value vs) [0..<length vs]"
  by (rule filter_cong)
     (simp_all add: duplicated_first_of_its_value length_duplicated_from)

lemma same_value_plain:
  assumes "\<not> is_bool v \<and> \<not> is_float v" and "\<not> is_bool w \<and> \<not> is_float w"
  shows "same_value v w = (v = w)"
  using assms by (cases v; cases w) (auto simp: same_value_def)

lemma first_of_its_value_plain:
  assumes "\<not> list_ex (\<lambda>v. is_bool v \<or> is_float v) vs" and "i < length vs"
  shows "first_of_its_value vs i = (vs ! i \<notin> set (take i vs))"
proof -
  have p: "\<not> is_bool v \<and> \<not> is_float v" if "v \<in> set vs" for v
    using assms(1) that by (auto simp: list_ex_iff)
  have "same_value w (vs ! i) = (w = vs ! i)" if "w \<in> set (take i vs)" for w
  proof (rule same_value_plain)
    from that have "w \<in> set vs" by (rule in_set_takeD)
    then show "\<not> is_bool w \<and> \<not> is_float w" by (rule p)
    from assms(2) show "\<not> is_bool (vs ! i) \<and> \<not> is_float (vs ! i)" by (intro p) simp
  qed
  then show ?thesis by (auto simp: first_of_its_value_def list_ex_iff)
qed

lemma distinct_keys_no_same_value:
  assumes "distinct (map dup_key rs)" and "i < length rs" and "j < i"
  shows "\<not> same_value (rs ! j) (rs ! i)"
proof
  assume "same_value (rs ! j) (rs ! i)"
  then have "dup_key (rs ! i) = dup_key (rs ! j)" by (simp add: dup_key_same_value)
  then have "map dup_key rs ! i = map dup_key rs ! j" using assms(2,3) by simp
  moreover have "i < length (map dup_key rs)" "j < length (map dup_key rs)" "i \<noteq> j"
    using assms(2,3) by simp_all
  ultimately show False using assms(1) by (simp only: nth_eq_iff_index_eq)
qed

section \<open>remove_duplicates keeps the first row of each value\<close>

text \<open>
  Claim C1. The values of the column are compared as Python's \<open>==\<close> compares them:
  \<open>True\<close>, \<open>1\<close> and \<open>1.0\<close> are one value, \<open>False\<close>, \<open>0\<close> and \<open>0.0\<close> are one
  value, \<open>nan\<close> is the same value as \<open>nan\<close>, and \<open>None\<close> is a value of its own. For a
  well-formed table \<open>T\<close> with the column \<open>C\<close>, \<open>remove_duplicates\<close> returns a table
  with the columns of \<open>T\<close> in which no two cells of \<open>C\<close> hold the same value, so that
  they are pairwise distinct; its rows are a subsequence of the rows of \<open>T\<close>, and
  they are exactly the rows of \<open>T\<close> whose cell in \<open>C\<close> has its value in no earlier row,
  in the original order. In a column with no boolean and no float these are the rows
  whose cell occurs in no earlier row. Without the column the call raises
  \<open>ValueError\<close>. \<open>T\<close> itself is left as it was.
\<close>

theorem remove_duplicates_first_of_each_value:
  assumes wf: "wf_frame T"
  shows "(has_column T C \<longrightarrow>
          (\<exists>R. returned (remove_duplicates T C) = Inr R \<and>
               caller_df (remove_duplicates T C) = T \<and>
               map name (columns R) = map name (columns T) \<and>
               (\<forall>i<length (column_vals R C). \<forall>j<i.
                  \<not> same_value (column_vals R C ! j) (column_vals R C ! i)) \<and>
               distinct (column_vals R C) \<and>
               subseq (rows_of R) (rows_of T) \<and>
               rows_of R =
                 map (row_at T)
                   (filter (first_of_its_value (column_vals T C)) [0..<len_df T]) \<and>
               (\<not> list_ex (\<lambda>v. is_bool v \<or> is_float v) (column_vals T C) \<longrightarrow>
                rows_of R =
                  map (row_at T)
                    (filter (\<lambda>i. column_vals T C ! i \<notin> set (take i (column_vals T C)))
                       [0..<len_df T])))) \<and>
         (\<not> has_column T C \<longrightarrow>
          returned (remove_duplicates T C) = Inl (ValueError (column_missing C)) \<and>
          caller_df (remove_duplicates T C) = T)"
proof (intro conjI impI)
  assume has: "has_column T C"
  from find_name_Some [OF has] obtain s where
    s: "find (\<lambda>s. name s = C) (columns T) = Some s" "s \<in> set (columns T)" by blast
  let ?bits = "map Not (duplicated_from [] (vals s))"
  let ?R = "getitem_mask T ?bits"
  have len: "length (vals s) = length (index T)"
    using wf s(2) by (rule wf_frame_lengths)
  have lenb: "length ?bits = length (index T)"
    by (simp add: length_duplicated_from len)
  have cv: "column_vals T C = vals s"
    by (simp add: column_vals_def s(1))
  have ret: "returned (remove_duplicates T C) = Inr ?R"
    using has by (simp add: remove_duplicates_def drop_duplicates_def getitem_def s(1) duplicated_def)
  have cvR: "column_vals ?R C = take_mask ?bits (vals s)"
    by (simp add: column_vals_getitem_mask cv)
  have dk: "distinct (map dup_key (column_vals ?R C))"
    using distinct_keys_kept [of "[]" "vals s"] by (simp add: cvR)
  have rows: "rows_of ?R = take_mask ?bits (rows_of T)"
    using wf lenb by (rule rows_of_getitem_mask)
  have "take_mask ?bits (rows_of T) =
        map ((!) (rows_of T)) (filter ((!) ?bits) [0..<length (rows_of T)])"
    by (rule take_mask_nth) (simp add: rows_of_def length_duplicated_from len)
  also have "\<dots> = map ((!) (rows_of T)) (filter (first_of_its_value (vals s)) [0..<length (vals s)])"
    using kept_rows_first_of_its_value [of "vals s"] by (simp add: rows_of_def len)
  also have "\<dots> = map (row_at T) (filter (first_of_its_value (vals s)) [0..<length (vals s)])"
    by (rule map_cong) (simp_all add: rows_of_def len)
  finally have first: "rows_of ?R =
      map (row_at T) (filter (first_of_its_value (column_vals T C)) [0..<len_df T])"
    by (simp add: rows cv len_df_def len)
  have plain: "rows_of ?R =
      map (row_at T)
        (filter (\<lambda>i. column_vals T C ! i \<notin> set (take i (column_vals T C))) [0..<len_df T])"
    if no: "\<not> list_ex (\<lambda>v. is_bool v \<or> is_float v) (column_vals T C)"
  proof -
    have "filter (first_of_its_value (column_vals T C)) [0..<len_df T] =
          filter (\<lambda>i. column_vals T C ! i \<notin> set (take i (column_vals T C))) [0..<len_df T]"
      by (rule filter_cong)
         (simp_all add: first_of_its_value_plain [OF no [unfolded cv]] cv len len_df_def)
    with first show ?thesis by simp
  qed
  show "\<exists>R. returned (remove_duplicates T C) = Inr R \<and>
               caller_df (remove_duplicates T C) = T \<and>
               map name (columns R) = map name (columns T) \<and>
               (\<forall>i<length (column_vals R C). \<forall>j<i.
                  \<not> same_value (column_vals R C ! j) (column_vals R C ! i)) \<and>
               distinct (column_vals R C) \<and>
               subseq (rows_of R) (rows_of T) \<and>
               rows_of R =
                 map (row_at T)
                   (filter (first_of_its_value (column_vals T C)) [0..<len_df T]) \<and>
               (\<not> list_ex (\<lambda>v. is_bool v \<or> is_float v) (column_vals T C) \<longrightarrow>
                rows_of R =
                  map (row_at T)
                    (filter (\<lambda>i. column_vals T C ! i \<notin> set (take i (column_vals T C)))
                       [0..<len_df T]))"
  proof (intro exI [of _ ?R] conjI impI allI)
    show "returned (remove_duplicates T C) = Inr ?R" by (rule ret)
    show "caller_df (remove_duplicates T C) = T" by (simp add: remove_duplicates_def)
    show "map name (columns ?R) = map name (columns T)" by (simp add: getitem_mask_def comp_def)
    show "\<not> same_value (column_vals ?R C ! j) (column_vals ?R C ! i)"
      if "i < length (column_vals ?R C)" and "j < i" for i j
      using dk that by (rule distinct_keys_no_same_value)
    show "distinct (column_vals ?R C)" using dk by (simp add: distinct_map)
    show "subseq (rows_of ?R) (rows_of T)" by (simp add: rows subseq_take_mask)
    show "rows_of ?R =
      map (row_at T) (filter (first_of_its_value (column_vals T C)) [0..<len_df T])"
      by (rule first)
    show "rows_of ?R =
      map (row_at T)
        (filter (\<lambda>i. column_vals T C ! i \<notin> set (take i (column_vals T C))) [0..<len_df T])"
      if "\<not> list_ex (\<lambda>v. is_bool v \<or> is_float v) (column_vals T C)"
      using that by (rule plain)
  qed
next
  assume "\<not> has_column T C"
  then show "returned (remove_duplicates T C) = Inl (ValueError (column_missing C))"
    by (simp add: remove_duplicates_def)
next
  assume "\<not> has_column T C"
  then show "caller_df (remove_duplicates T C) = T"
    by (simp add: remove_duplicates_def)
qed

text \<open>
  On \<open>people\<close>, whose column \<open>who\<close> reads ana, bob, ana, nan, nan, cid, the rows
  0, 1, 3 and 5 are kept. On \<open>demo\<close>, whose column \<open>k\<close> reads \<open>'x'\<close>, \<open>1\<close>, \<open>True\<close>,
  \<open>'x'\<close>, the rows 0 and 1 are kept: \<open>True\<close> is the value \<open>1\<close>.
\<close>

theorem remove_duplicates_first_of_each_value_witness:
  "wf_frame people \<and> has_column people ''who'' \<and> \<not> has_column people ''zz'' \<and>
   \<not> list_ex (\<lambda>v. is_bool v \<or> is_float v) (column_vals people ''who'') \<and>
   (\<exists>R. returned (remove_duplicates people ''who'') = Inr R \<and>
        caller_df (remove_duplicates people ''who'') = people \<and>
        column_vals R ''who'' = [StrV ''ana'', StrV ''bob'', NaN, StrV ''cid''] \<and>
        distinct (column_vals R ''who'') \<and>
        subseq (rows_of R) (rows_of people) \<and>
        rows_of R =
          [(0, [StrV ''ana'', IntV 1]), (1, [StrV ''bob'', IntV 2]),
           (3, [NaN, IntV 4]), (5, [StrV ''cid'', IntV 6])]) \<and>
   returned (remove_duplicates people ''zz'') = Inl (ValueError (column_missing ''zz'')) \<and>
   wf_frame demo \<and> has_column demo ''k'' \<and>
   (\<exists>R. returned (remove_duplicates demo ''k'') = Inr R \<and>
        rows_of R =
          [(0, [StrV ''x'', StrV ''A&B #1!'', IntV 1]), (1, [IntV 1, IntV 123, IntV 2])])"
proof -
  have wf: "wf_frame people" by (simp add: wf_frame_def people_def)
  have has: "has_column people ''who''" by (simp add: has_column_def people_def)
  have hasnt: "\<not> has_column people ''zz''" by (simp add: has_column_def people_def)
  have cv: "column_vals people ''who'' =
      [StrV ''ana'', StrV ''bob'', StrV ''ana'', NaN, NaN, StrV ''cid'']"
    by (simp add: column_vals_def people_def)
  have no: "\<not> list_ex (\<lambda>v. is_bool v \<or> is_float v) (column_vals people ''who'')"
    by (simp add: cv)
  have kept: "map (row_at people)
      (filter (\<lambda>i. column_vals people ''who'' ! i \<notin> set (take i (column_vals people ''who'')))
         [0..<len_df people]) =
      [(0, [StrV ''ana'', IntV 1]), (1, [StrV ''bob'', IntV 2]),
       (3, [NaN, IntV 4]), (5, [StrV ''cid'', IntV 6])]"
    by code_simp
  have wfd: "wf_frame demo" by (simp add: wf_frame_def demo_def)
  have hasd: "has_column demo ''k''" by (simp add: has_column_def demo_def)
  have keptd: "map (row_at demo)
      (filter (first_of_its_value (column_vals demo ''k'')) [0..<len_df demo]) =
      [(0, [StrV ''x'', StrV ''A&B #1!'', IntV 1]), (1, [IntV 1, IntV 123, IntV 2])]"
    by code_simp
  from remove_duplicates_first_of_each_value [OF wf, of "''who''"] has no
  obtain R where R: "returned (remove_duplicates people ''who'') = Inr R"
      "caller_df (remove_duplicates people ''who'') = people"
      "distinct (column_vals R ''who'')"
      "subseq (rows_of R) (rows_of people)"
      "rows_of R =
         map (row_at people)
           (filter (\<lambda>i. column_vals people ''who'' ! i \<notin> set (take i (column_vals people ''who'')))
              [0..<len_df people])"
    by blast
  have "map_sum id (\<lambda>R. column_vals R ''who'') (returned (remove_duplicates people ''who'')) =
      Inr [StrV ''ana'', StrV ''bob'', NaN, StrV ''cid'']"
    by code_simp
  then have vals: "column_vals R ''who'' = [StrV ''ana'', StrV ''bob'', NaN, StrV ''cid'']"
    by (simp add: R(1))
  from remove_duplicates_first_of_each_value [OF wfd, of "''k''"] hasd
  obtain Rd where Rd: "returned (remove_duplicates demo ''k'') = Inr Rd"
      "rows_of Rd =
         map (row_at demo) (filter (first_of_its_value (column_vals demo ''k'')) [0..<len_df demo])"
    by blast
  from remove_duplicates_first_of_each_value [OF wf, of "''zz''"] hasnt
  have absent: "returned (remove_duplicates people ''zz'') = Inl (ValueError (column_missing ''zz''))"
    by blast
  from R(1,2,3,4) R(5) [unfolded kept] vals have first: "\<exists>R. returned (remove_duplicates people ''who'') = Inr R \<and>
        caller_df (remove_duplicates people ''who'') = people \<and>
        column_vals R ''who'' = [StrV ''ana'', StrV ''bob'', NaN, StrV ''cid''] \<and>
        distinct (column_vals R ''who'') \<and>
        subseq (rows_of R) (rows_of people) \<and>
        rows_of R =
          [(0, [StrV ''ana'', IntV 1]), (1, [StrV ''bob'', IntV 2]),
           (3, [NaN, IntV 4]), (5, [StrV ''cid'', IntV 6])]"
    by blast
  from Rd(1) Rd(2) [unfolded keptd] have second: "\<exists>R. returned (remove_duplicates demo ''k'') = Inr R \<and>
        rows_of R =
          [(0, [StrV ''x'', StrV ''A&B #1!'', IntV 1]), (1, [IntV 1, IntV 123, IntV 2])]"
    by blast
  from wf has hasnt no first absent wfd hasd second show ?thesis by blast
qed

text \<open>
  The claim as it stands, with each distinct cell taken for a distinct value, fails
  on \<open>one_true\<close>, whose column \<open>k\<close> reads \<open>1\<close>, \<open>True\<close>: the two cells are
  distinct, each in its first occurrence, and the row of \<open>True\<close> is removed.
\<close>

theorem remove_duplicates_true_counterexample:
  "wf_frame one_true \<and> has_column one_true ''k'' \<and>
   distinct (column_vals one_true ''k'') \<and>
   rows_of one_true = [(0, [IntV 1]), (1, [BoolV True])] \<and>
   map_sum id rows_of (returned (remove_duplicates one_true ''k'')) = Inr [(0, [IntV 1])]"
  by (simp add: wf_frame_def one_true_def has_column_def column_vals_def rows_of_def row_at_def
      remove_duplicates_def drop_duplicates_def getitem_def duplicated_def getitem_mask_def)

section \<open>strip_dataframe is idempotent\<close>

lemma dropWhile_rev_keeps_head:
  assumes "xs \<noteq> []" and "\<not> P (hd xs)"
  shows "rev (dropWhile P (rev xs)) \<noteq> [] \<and> hd (rev (dropWhile P (rev xs))) = hd xs"
proof -
  from assms obtain x ys where xs: "xs = x # ys" and nP: "\<not> P x" by (cases xs) auto
  show ?thesis
  proof (cases "\<forall>y\<in>set (rev ys). P y")
    case True
    then have "dropWhile P (rev ys @ [x]) = dropWhile P [x]" by (intro dropWhile_append2) simp
    with nP show ?thesis by (simp add: xs)
  next
    case False
    then obtain y where "y \<in> set (rev ys)" "\<not> P y" by blast
    then have "dropWhile P (rev ys @ [x]) = dropWhile P (rev ys) @ [x]" by (rule dropWhile_append1)
    then show ?thesis by (simp add: xs)
  qed
qed

lemma py_strip_idem: "py_strip (py_strip s) = py_strip s"
proof -
  define a where "a = dropWhile is_space s"
  define b where "b = rev (dropWhile is_space (rev a))"
  have front: "dropWhile is_space b = b"
  proof (cases "a = []")
    case True
    then show ?thesis by (simp add: b_def)
  next
    case False
    then have na: "\<not> is_space (hd a)" unfolding a_def by (rule hd_dropWhile)
    from False na have "b \<noteq> [] \<and> hd b = hd a" unfolding b_def by (rule dropWhile_rev_keeps_head)
    with na show ?thesis by (simp add: dropWhile_eq_self_iff)
  qed
  have rear: "dropWhile is_space (rev b) = rev b" by (simp add: b_def)
  have "py_strip s = b" by (simp add: py_strip_def a_def b_def)
  moreover have "py_strip b = b" by (simp add: py_strip_def front rear)
  ultimately show ?thesis by simp
qed

lemma strip_value_idem: "strip_value (strip_value v) = strip_value v"
  by (cases v) (simp_all add: py_strip_idem)

lemma strip_value_kinds:
  "\<not> is_int (strip_value v) \<and> \<not> is_float (strip_value v) \<and> \<not> is_bool (strip_value v)"
  by (cases v) simp_all

lemma str_accessor_ok_stripped: "str_accessor_ok (map strip_value vs)"
proof -
  let ?xs = "filter (\<lambda>v. \<not> pd_isna v) (map strip_value vs)"
  have "?xs = [] \<or> \<not> (list_all (\<lambda>v. is_int v \<or> is_float v) ?xs \<or> list_all is_bool ?xs)"
  proof (cases ?xs)
    case Nil
    then show ?thesis by simp
  next
    case (Cons x rest)
    then have "x \<in> set ?xs" by simp
    then obtain v where "x = strip_value v" by auto
    then have "\<not> is_int x \<and> \<not> is_float x \<and> \<not> is_bool x" by (simp add: strip_value_kinds)
    with Cons show ?thesis by simp
  qed
  then show ?thesis by (simp add: str_accessor_ok_def Let_def)
qed

lemma strip_column_fixpoint:
  assumes "strip_column c = Inr c'"
  shows "strip_column c' = Inr c'"
proof (cases "dtype c = DObject")
  case True
  with assms have ok: "str_accessor_ok (vals c)" and c': "c' = c\<lparr>vals := map strip_value (vals c)\<rparr>"
    by (auto simp: strip_column_def str_strip_def split: if_splits)
  have "map strip_value (vals c') = vals c'"
    by (simp add: c' strip_value_idem)
  moreover have "str_accessor_ok (vals c')"
    by (simp add: c' str_accessor_ok_stripped)
  moreover have "dtype c' = DObject" using True by (simp add: c')
  ultimately show ?thesis by (simp add: strip_column_def str_strip_def)
next
  case False
  with assms have "c' = c" by (simp add: strip_column_def)
  with False show ?thesis by (simp add: strip_column_def)
qed

lemma apply_columns_fixpoint:
  "apply_columns strip_column cs = Inr cs' \<Longrightarrow> apply_columns strip_column cs' = Inr cs'"
proof (induction cs arbitrary: cs')
  case Nil
  then show ?case by simp
next
  case (Cons c cs)
  from Cons.prems obtain r rs where
    r: "strip_column c = Inr r" and rs: "apply_columns strip_column cs = Inr rs" and cs': "cs' = r # rs"
    by (auto split: sum.splits)
  from r have "strip_column r = Inr r" by (rule strip_column_fixpoint)
  moreover from rs have "apply_columns strip_column rs = Inr rs" by (rule Cons.IH)
  ultimately show ?case by (simp add: cs')
qed

text \<open>
  Claim C4. \<open>strip_dataframe\<close> is idempotent: stripping the table it returns gives
  that table again, and a call that raises has nothing to strip again.
\<close>

theorem strip_dataframe_idempotent:
  "(case returned (strip_dataframe T) of
      Inl e \<Rightarrow> Inl e
    | Inr T' \<Rightarrow> returned (strip_dataframe T')) = returned (strip_dataframe T)"
proof (cases "apply_columns strip_column (columns T)")
  case (Inl e)
  then show ?thesis by (simp add: strip_dataframe_def)
next
  case (Inr cs)
  then have "apply_columns strip_column cs = Inr cs" by (rule apply_columns_fixpoint)
  with Inr show ?thesis by (simp add: strip_dataframe_def)
qed

theorem strip_dataframe_idempotent_witness:
  "returned (strip_dataframe padded) = Inr padded_stripped \<and>
   returned (strip_dataframe padded_stripped) = Inr padded_stripped"
proof -
  have first: "returned (strip_dataframe padded) = Inr padded_stripped"
    by (simp add: strip_dataframe_def strip_column_def str_strip_def str_accessor_ok_def
          padded_def padded_stripped_def py_strip_def is_space_def)
  with strip_dataframe_idempotent [of padded] show ?thesis by simp
qed

section \<open>Columns after an assignment\<close>

lemma apply_values_total: "apply_values (\<lambda>v. Inr (f v)) vs = Inr (map f vs)"
  by (induction vs) auto

lemma series_apply_total:
  "series_apply (\<lambda>v. Inr (f v)) s = Inr (with_result s (map f (vals s)))"
  by (simp add: series_apply_def apply_values_total)

lemma name_with_result: "name (with_result s rs) = name s"
  by (simp add: with_result_def)

text \<open>What the scan has seen, it has seen in the list; a string ends every scan.\<close>

lemma scan_flags:
  "scan sn rs = Some sn' \<Longrightarrow>
     (seen_float sn' \<longrightarrow> seen_float sn \<or> list_ex is_float rs) \<and>
     (seen_nan sn' \<longrightarrow> seen_nan sn \<or> NaN \<in> set rs) \<and>
     (seen_null sn' \<longrightarrow> seen_null sn \<or> NoneV \<in> set rs) \<and>
     (seen_int sn' \<longrightarrow> seen_int sn \<or> list_ex is_int rs)"
proof (induction sn rs rule: scan.induct)
  case (6 sn i vs)
  then show ?case by (auto simp: Let_def split: if_splits)
qed auto

lemma scan_string: "list_ex isinstance_str rs \<Longrightarrow> scan sn rs = None"
  by (induction sn rs rule: scan.induct) (auto simp: Let_def)

lemma convert_with_string:
  "list_ex isinstance_str rs \<Longrightarrow> maybe_convert_objects rs = (DObject, rs)"
  by (simp add: maybe_convert_objects_def scan_string)

text \<open>
  The objects come back as they are when none of them is a float or \<open>nan\<close> and no
  integer stands beside a \<open>None\<close>.
\<close>

lemma convert_keeps:
  assumes "\<not> list_ex is_float rs" and "NaN \<notin> set rs"
      and "NoneV \<in> set rs \<longrightarrow> \<not> list_ex is_int rs"
  shows "snd (maybe_convert_objects rs) = rs"
proof (cases "scan nothing_seen rs")
  case None
  then show ?thesis by (simp add: maybe_convert_objects_def)
next
  case (Some sn)
  from scan_flags [OF Some] assms
  have "\<not> seen_float sn" "\<not> seen_nan sn" "seen_null sn \<longrightarrow> \<not> seen_int sn"
    by (auto simp: nothing_seen_def)
  with Some show ?thesis by (simp add: maybe_convert_objects_def)
qed

lemma vals_with_result_keeps:
  assumes "\<not> list_ex is_float rs" and "NaN \<notin> set rs"
      and "NoneV \<in> set rs \<longrightarrow> \<not> list_ex is_int rs"
  shows "vals (with_result s rs) = rs"
  using convert_keeps [OF assms] by (simp add: with_result_def)

lemma vals_with_result_strings_or_none:
  assumes "\<forall>v\<in>set rs. v = NoneV \<or> isinstance_str v"
  shows "vals (with_result s rs) = rs"
proof (rule vals_with_result_keeps)
  have k: "\<not> is_float v \<and> v \<noteq> NaN \<and> \<not> is_int v" if "v \<in> set rs" for v
    using assms that by (cases v) auto
  show "\<not> list_ex is_float rs" using k by (auto simp: list_ex_iff)
  show "NaN \<notin> set rs" using k by auto
  show "NoneV \<in> set rs \<longrightarrow> \<not> list_ex is_int rs" using k by (auto simp: list_ex_iff)
qed

lemma vals_with_result_strings_or_ints:
  assumes "\<forall>v\<in>set rs. isinstance_str v \<or> is_int v"
  shows "vals (with_result s rs) = rs"
proof (rule vals_with_result_keeps)
  have k: "\<not> is_float v \<and> v \<noteq> NaN \<and> v \<noteq> NoneV" if "v \<in> set rs" for v
    using assms that by (cases v) auto
  show "\<not> list_ex is_float rs" using k by (auto simp: list_ex_iff)
  show "NaN \<notin> set rs" using k by auto
  show "NoneV \<in> set rs \<longrightarrow> \<not> list_ex is_int rs" using k by auto
qed

text \<open>In every case a cell comes back as it is or as the cell of a float column.\<close>

lemma convert_cells:
  "snd (maybe_convert_objects rs) = rs \<or> snd (maybe_convert_objects rs) = map as_float rs"
  by (simp add: maybe_convert_objects_def split: option.splits)

lemma vals_with_result_cells:
  "vals (with_result s rs) = rs \<or> vals (with_result s rs) = map as_float rs"
  using convert_cells [of rs] by (auto simp: with_result_def)

lemma find_name_holds: "find (\<lambda>s. name s = D) cs = Some c \<Longrightarrow> name c = D"
  by (induction cs) (auto split: if_splits)

lemma column_vals_map_columns:
  assumes keep: "\<And>c. name (g c) = name c"
  shows "column_vals (df\<lparr>columns := map g (columns df)\<rparr>) D =
         (case find (\<lambda>s. name s = D) (columns df) of None \<Rightarrow> [] | Some c \<Rightarrow> vals (g c))"
  using find_name_map [of g D "columns df", OF keep]
  by (cases "find (\<lambda>s. name s = D) (columns df)") (simp_all add: column_vals_def)

lemma column_vals_setitem_same:
  "has_column df C \<Longrightarrow> column_vals (setitem df C s) C = vals s"
proof -
  assume has: "has_column df C"
  from find_name_Some [OF has] obtain c where
    c: "find (\<lambda>s. name s = C) (columns df) = Some c" "name c = C" by blast
  have "column_vals (df\<lparr>columns := map (\<lambda>c. if name c = C then c\<lparr>dtype := dtype s, vals := vals s\<rparr> else c) (columns df)\<rparr>) C
        = (case find (\<lambda>s. name s = C) (columns df) of None \<Rightarrow> []
           | Some c \<Rightarrow> vals (if name c = C then c\<lparr>dtype := dtype s, vals := vals s\<rparr> else c))"
    by (rule column_vals_map_columns) simp
  with has c show ?thesis by (simp add: setitem_def)
qed

lemma column_vals_setitem_other:
  "has_column df C \<Longrightarrow> D \<noteq> C \<Longrightarrow> column_vals (setitem df C s) D = column_vals df D"
proof -
  assume has: "has_column df C" and ne: "D \<noteq> C"
  have eq: "column_vals (df\<lparr>columns := map (\<lambda>c. if name c = C then c\<lparr>dtype := dtype s, vals := vals s\<rparr> else c) (columns df)\<rparr>) D
        = (case find (\<lambda>s. name s = D) (columns df) of None \<Rightarrow> []
           | Some c \<Rightarrow> vals (if name c = C then c\<lparr>dtype := dtype s, vals := vals s\<rparr> else c))"
    by (rule column_vals_map_columns) simp
  show ?thesis
  proof (cases "find (\<lambda>s. name s = D) (columns df)")
    case None
    with eq has show ?thesis by (simp add: setitem_def column_vals_def)
  next
    case (Some c)
    then have "name c = D" by (rule find_name_holds)
    with eq has ne Some show ?thesis by (simp add: setitem_def column_vals_def)
  qed
qed

lemma column_vals_loc_setitem_same:
  "has_column df C \<Longrightarrow> column_vals (loc_setitem df C s) C = vals s"
proof -
  assume has: "has_column df C"
  from find_name_Some [OF has] obtain c where
    c: "find (\<lambda>s. name s = C) (columns df) = Some c" "name c = C" by blast
  have "column_vals (df\<lparr>columns := map (\<lambda>c. if name c = C then c\<lparr>vals := vals s\<rparr> else c) (columns df)\<rparr>) C
        = (case find (\<lambda>s. name s = C) (columns df) of None \<Rightarrow> []
           | Some c \<Rightarrow> vals (if name c = C then c\<lparr>vals := vals s\<rparr> else c))"
    by (rule column_vals_map_columns) simp
  with has c show ?thesis by (simp add: loc_setitem_def)
qed

lemma column_vals_loc_setitem_other:
  "has_column df C \<Longrightarrow> D \<noteq> C \<Longrightarrow> column_vals (loc_setitem df C s) D = column_vals df D"
proof -
  assume has: "has_column df C" and ne: "D \<noteq> C"
  have eq: "column_vals (df\<lparr>columns := map (\<lambda>c. if name c = C then c\<lparr>vals := vals s\<rparr> else c) (columns df)\<rparr>) D
        = (case find (\<lambda>s. name s = D) (columns df) of None \<Rightarrow> []
           | Some c \<Rightarrow> vals (if name c = C then c\<lparr>vals := vals s\<rparr> else c))"
    by (rule column_vals_map_columns) simp
  show ?thesis
  proof (cases "find (\<lambda>s. name s = D) (columns df)")
    case None
    with eq has show ?thesis by (simp add: loc_setitem_def column_vals_def)
  next
    case (Some c)
    then have "name c = D" by (rule find_name_holds)
    with eq has ne Some show ?thesis by (simp add: loc_setitem_def column_vals_def)
  qed
qed

lemma names_setitem: "has_column df C \<Longrightarrow> map name (columns (setitem df C s)) = map name (columns df)"
  by (simp add: setitem_def comp_def)

lemma names_loc_setitem:
  "has_column df C \<Longrightarrow> map name (columns (loc_setitem df C s)) = map name (columns df)"
  by (simp add: loc_setitem_def comp_def)

lemma index_setitem: "index (setitem df C s) = index df"
  by (simp add: setitem_def)

lemma index_loc_setitem: "index (loc_setitem df C s) = index df"
  by (simp add: loc_setitem_def)

lemma getitem_column_vals:
  "has_column df C \<Longrightarrow> \<exists>s. getitem df C = Inr s \<and> vals s = column_vals df C"
  using find_name_Some [of df C] by (auto simp: getitem_def column_vals_def)

section \<open>clean_special_characters\<close>

lemma clean_text_cells:
  "clean_text =
     (\<lambda>v. case v of
             StrV s \<Rightarrow>
               StrV (filter (\<lambda>c. is_ascii_letter c \<or> is_digit c \<or> is_space c)
                       (map (\<lambda>c. if c = CHR ''&'' then CHR ''E'' else c) s))
           | _ \<Rightarrow> v)"
  by (rule ext) (simp add: clean_text_def re_sub_class_def class_special_def py_replace_def
                  split: cell.splits)

lemma clean_text_string: "isinstance_str (clean_text v) = isinstance_str v"
  by (cases v) (simp_all add: clean_text_def)

lemma as_float_clean_text:
  "as_float (clean_text v) =
     (case v of
        IntV k \<Rightarrow> (case float_of_int k of Some j \<Rightarrow> FloatV j | None \<Rightarrow> IntV k)
      | NoneV \<Rightarrow> NaN
      | _ \<Rightarrow> clean_text v)"
  by (cases v) (simp_all add: clean_text_def)

lemma as_float_keeps:
  assumes "NoneV \<notin> set rs" and "\<not> list_ex is_int rs"
  shows "map as_float rs = rs"
proof -
  have "as_float v = v" if "v \<in> set rs" for v
    using assms that by (cases v) (auto simp: list_ex_iff)
  then show ?thesis by (simp add: map_idI)
qed

text \<open>
  Claim C5. With the column \<open>C\<close> present, and every integer of it in the range of a
  float, \<open>clean_special_characters\<close> changes the table in place and returns it. In
  every string cell of \<open>C\<close> each \<open>&\<close> has become \<open>E\<close> and then every character that
  is not one of the letters a to z and A to Z, a digit or whitespace has been
  deleted, an accented letter too. A cell that is no string is as before when the
  column holds a string, and when it holds no \<open>None\<close> and no integer; in any column
  it is as before, or it has been boxed again for the float column that pandas
  infers from the cells: \<open>None\<close> as \<open>nan\<close>, an integer as the float of its value. The
  other columns, the index and the column names are as before. Without the column
  the call returns \<open>None\<close>. The string \<open>A&B #1!\<close> becomes \<open>AEB 1\<close>.
\<close>

theorem clean_special_characters_ascii_cells:
  "(has_column T C \<and> list_all in_float_range (column_vals T C) \<longrightarrow>
      (\<exists>R. returned (clean_special_characters T C) = Inr (Some R) \<and>
           caller_df (clean_special_characters T C) = R \<and>
           length (column_vals R C) = length (column_vals T C) \<and>
           (\<forall>i<length (column_vals T C).
              case column_vals T C ! i of
                StrV s \<Rightarrow>
                  column_vals R C ! i =
                    StrV (filter (\<lambda>c. is_ascii_letter c \<or> is_digit c \<or> is_space c)
                            (map (\<lambda>c. if c = CHR ''&'' then CHR ''E'' else c) s))
              | IntV k \<Rightarrow>
                  column_vals R C ! i = IntV k \<or>
                  (\<exists>j. float_of_int k = Some j \<and> column_vals R C ! i = FloatV j)
              | NoneV \<Rightarrow> column_vals R C ! i = NoneV \<or> column_vals R C ! i = NaN
              | v \<Rightarrow> column_vals R C ! i = v) \<and>
           (list_ex isinstance_str (column_vals T C) \<or>
            NoneV \<notin> set (column_vals T C) \<and> \<not> list_ex is_int (column_vals T C) \<longrightarrow>
            column_vals R C =
              map (\<lambda>v. case v of
                         StrV s \<Rightarrow>
                           StrV (filter (\<lambda>c. is_ascii_letter c \<or> is_digit c \<or> is_space c)
                                   (map (\<lambda>c. if c = CHR ''&'' then CHR ''E'' else c) s))
                       | _ \<Rightarrow> v)
                  (column_vals T C)) \<and>
           (\<forall>D. D \<noteq> C \<longrightarrow> column_vals R D = column_vals T D) \<and>
           index R = index T \<and>
           map name (columns R) = map name (columns T))) \<and>
   (\<not> has_column T C \<longrightarrow> returned (clean_special_characters T C) = Inr None) \<and>
   clean_text (StrV ''A&B #1!'') = StrV ''AEB 1''"
proof (intro conjI impI)
  assume "has_column T C \<and> list_all in_float_range (column_vals T C)"
  then have has: "has_column T C" and range: "list_all in_float_range (column_vals T C)"
    by simp_all
  from getitem_column_vals [OF has] obtain s where
    s: "getitem T C = Inr s" "vals s = column_vals T C" by blast
  let ?vs = "column_vals T C"
  let ?rs = "map clean_text ?vs"
  let ?s' = "with_result s ?rs"
  let ?R = "loc_setitem T C ?s'"
  have out: "clean_special_characters T C =
      \<lparr>caller_df = ?R, printed = [], returned = Inr (Some ?R)\<rparr>"
    using has by (simp add: clean_special_characters_def s series_apply_total)
  have cv: "column_vals ?R C = vals ?s'"
    using has by (rule column_vals_loc_setitem_same)
  have either: "vals ?s' = ?rs \<or> vals ?s' = map as_float ?rs"
    by (rule vals_with_result_cells)
  have len: "length (vals ?s') = length ?vs"
    using either by (auto dest: arg_cong [where f = length])
  have cell: "case ?vs ! i of
                StrV s \<Rightarrow>
                  vals ?s' ! i =
                    StrV (filter (\<lambda>c. is_ascii_letter c \<or> is_digit c \<or> is_space c)
                            (map (\<lambda>c. if c = CHR ''&'' then CHR ''E'' else c) s))
              | IntV k \<Rightarrow>
                  vals ?s' ! i = IntV k \<or>
                  (\<exists>j. float_of_int k = Some j \<and> vals ?s' ! i = FloatV j)
              | NoneV \<Rightarrow> vals ?s' ! i = NoneV \<or> vals ?s' ! i = NaN
              | v \<Rightarrow> vals ?s' ! i = v"
    if i: "i < length ?vs" for i
  proof -
    from either have "vals ?s' ! i = clean_text (?vs ! i) \<or>
                      vals ?s' ! i = as_float (clean_text (?vs ! i))"
      using i by auto
    then show ?thesis
      by (cases "?vs ! i")
         (auto simp: as_float_clean_text clean_text_cells split: option.splits)
  qed
  have exact: "vals ?s' = ?rs"
    if "list_ex isinstance_str ?vs \<or> NoneV \<notin> set ?vs \<and> \<not> list_ex is_int ?vs"
    using that
  proof
    assume "list_ex isinstance_str ?vs"
    then have str: "list_ex isinstance_str ?rs"
      by (auto simp: list_ex_iff clean_text_string)
    then have "?rs \<noteq> []" by auto
    with convert_with_string [OF str] show ?thesis by (simp add: with_result_def)
  next
    assume no: "NoneV \<notin> set ?vs \<and> \<not> list_ex is_int ?vs"
    have k: "clean_text v \<noteq> NoneV \<and> \<not> is_int (clean_text v)" if "v \<in> set ?vs" for v
      using no that by (cases v) (auto simp: clean_text_def list_ex_iff)
    have "NoneV \<notin> set ?rs"
    proof
      assume "NoneV \<in> set ?rs"
      then obtain v where "v \<in> set ?vs" "clean_text v = NoneV" by auto
      with k show False by blast
    qed
    moreover have "\<not> list_ex is_int ?rs"
    proof
      assume "list_ex is_int ?rs"
      then obtain v where "v \<in> set ?vs" "is_int (clean_text v)" by (auto simp: list_ex_iff)
      with k show False by blast
    qed
    ultimately have "map as_float ?rs = ?rs" by (rule as_float_keeps)
    with either show ?thesis by auto
  qed
  show "\<exists>R. returned (clean_special_characters T C) = Inr (Some R) \<and>
           caller_df (clean_special_characters T C) = R \<and>
           length (column_vals R C) = length (column_vals T C) \<and>
           (\<forall>i<length (column_vals T C).
              case column_vals T C ! i of
                StrV s \<Rightarrow>
                  column_vals R C ! i =
                    StrV (filter (\<lambda>c. is_ascii_letter c \<or> is_digit c \<or> is_space c)
                            (map (\<lambda>c. if c = CHR ''&'' then CHR ''E'' else c) s))
              | IntV k \<Rightarrow>
                  column_vals R C ! i = IntV k \<or>
                  (\<exists>j. float_of_int k = Some j \<and> column_vals R C ! i = FloatV j)
              | NoneV \<Rightarrow> column_vals R C ! i = NoneV \<or> column_vals R C ! i = NaN
              | v \<Rightarrow> column_vals R C ! i = v) \<and>
           (list_ex isinstance_str (column_vals T C) \<or>
            NoneV \<notin> set (column_vals T C) \<and> \<not> list_ex is_int (column_vals T C) \<longrightarrow>
            column_vals R C =
              map (\<lambda>v. case v of
                         StrV s \<Rightarrow>
                           StrV (filter (\<lambda>c. is_ascii_letter c \<or> is_digit c \<or> is_space c)
                                   (map (\<lambda>c. if c = CHR ''&'' then CHR ''E'' else c) s))
                       | _ \<Rightarrow> v)
                  (column_vals T C)) \<and>
           (\<forall>D. D \<noteq> C \<longrightarrow> column_vals R D = column_vals T D) \<and>
           index R = index T \<and>
           map name (columns R) = map name (columns T)"
  proof (intro exI [of _ ?R] conjI allI impI)
    show "returned (clean_special_characters T C) = Inr (Some ?R)" by (simp add: out)
    show "caller_df (clean_special_characters T C) = ?R" by (simp add: out)
    show "length (column_vals ?R C) = length (column_vals T C)"
      by (simp only: cv len)
    show "case column_vals T C ! i of
                StrV s \<Rightarrow>
                  column_vals ?R C ! i =
                    StrV (filter (\<lambda>c. is_ascii_letter c \<or> is_digit c \<or> is_space c)
                            (map (\<lambda>c. if c = CHR ''&'' then CHR ''E'' else c) s))
              | IntV k \<Rightarrow>
                  column_vals ?R C ! i = IntV k \<or>
                  (\<exists>j. float_of_int k = Some j \<and> column_vals ?R C ! i = FloatV j)
              | NoneV \<Rightarrow> column_vals ?R C ! i = NoneV \<or> column_vals ?R C ! i = NaN
              | v \<Rightarrow> column_vals ?R C ! i = v"
      if "i < length (column_vals T C)" for i
      using cell [OF that] by (simp only: cv)
    show "column_vals ?R C =
              map (\<lambda>v. case v of
                         StrV s \<Rightarrow>
                           StrV (filter (\<lambda>c. is_ascii_letter c \<or> is_digit c \<or> is_space c)
                                   (map (\<lambda>c. if c = CHR ''&'' then CHR ''E'' else c) s))
                       | _ \<Rightarrow> v)
                  (column_vals T C)"
      if "list_ex isinstance_str (column_vals T C) \<or>
          NoneV \<notin> set (column_vals T C) \<and> \<not> list_ex is_int (column_vals T C)"
    proof -
      from exact [OF that] have "column_vals ?R C = map clean_text (column_vals T C)"
        by (simp only: cv)
      then show ?thesis by (simp only: clean_text_cells)
    qed
    show "column_vals ?R D = column_vals T D" if "D \<noteq> C" for D
      using has that by (rule column_vals_loc_setitem_other)
    show "index ?R = index T" by (rule index_loc_setitem)
    show "map name (columns ?R) = map name (columns T)" using has by (rule names_loc_setitem)
  qed
next
  assume "\<not> has_column T C"
  then show "returned (clean_special_characters T C) = Inr None"
    by (simp add: clean_special_characters_def)
next
  show "clean_text (StrV ''A&B #1!'') = StrV ''AEB 1''"
    by (simp add: clean_text_def re_sub_class_def class_special_def py_replace_def
          is_ascii_letter_def is_digit_def is_space_def)
qed

text \<open>
  On \<open>demo\<close>, whose column \<open>doc\<close> holds a string, the string is cleaned and the
  integer, the \<open>nan\<close> and the \<open>None\<close> beside it are as before. On \<open>gaps\<close>, whose
  column \<open>g\<close> reads \<open>1\<close>, \<open>None\<close>, the cells come back as \<open>1.0\<close> and \<open>nan\<close>.
\<close>

theorem clean_special_characters_ascii_cells_witness:
  "has_column demo ''doc'' \<and> list_all in_float_range (column_vals demo ''doc'') \<and>
   list_ex isinstance_str (column_vals demo ''doc'') \<and>
   \<not> has_column demo ''zz'' \<and>
   (\<exists>R. returned (clean_special_characters demo ''doc'') = Inr (Some R) \<and>
        caller_df (clean_special_characters demo ''doc'') = R \<and>
        column_vals R ''doc'' = [StrV ''AEB 1'', IntV 123, NaN, NoneV] \<and>
        column_vals R ''n'' = column_vals demo ''n'' \<and>
        index R = index demo) \<and>
   returned (clean_special_characters demo ''zz'') = Inr None \<and>
   has_column gaps ''g'' \<and> list_all in_float_range (column_vals gaps ''g'') \<and>
   (\<exists>R. returned (clean_special_characters gaps ''g'') = Inr (Some R) \<and>
        column_vals R ''g'' = [FloatV 1, NaN])"
proof -
  have has: "has_column demo ''doc''" by (simp add: has_column_def demo_def)
  have hasnt: "\<not> has_column demo ''zz''" by (simp add: has_column_def demo_def)
  have cv: "column_vals demo ''doc'' = [StrV ''A&B #1!'', IntV 123, NaN, NoneV]"
    by (simp add: column_vals_def demo_def)
  have range: "list_all in_float_range (column_vals demo ''doc'')"
    by code_simp
  have str: "list_ex isinstance_str (column_vals demo ''doc'')"
    by (simp add: cv)
  have ne: "''n'' \<noteq> ''doc''" by simp
  from clean_special_characters_ascii_cells [of demo "''doc''"] has range str obtain R where
    R: "returned (clean_special_characters demo ''doc'') = Inr (Some R)"
       "caller_df (clean_special_characters demo ''doc'') = R"
       "column_vals R ''doc'' =
             map (\<lambda>v. case v of
                        StrV s \<Rightarrow>
                          StrV (filter (\<lambda>c. is_ascii_letter c \<or> is_digit c \<or> is_space c)
                                  (map (\<lambda>c. if c = CHR ''&'' then CHR ''E'' else c) s))
                      | _ \<Rightarrow> v)
                 (column_vals demo ''doc'')"
       "\<forall>D. D \<noteq> ''doc'' \<longrightarrow> column_vals R D = column_vals demo D"
       "index R = index demo"
    by blast
  from R(3) have doc: "column_vals R ''doc'' = [StrV ''AEB 1'', IntV 123, NaN, NoneV]"
    by (simp add: cv is_ascii_letter_def is_digit_def is_space_def)
  from R(4) ne have n: "column_vals R ''n'' = column_vals demo ''n''" by blast
  from clean_special_characters_ascii_cells [of demo "''zz''"] hasnt
  have absent: "returned (clean_special_characters demo ''zz'') = Inr None" by blast
  have hasg: "has_column gaps ''g''" by (simp add: has_column_def gaps_def)
  have cvg: "column_vals gaps ''g'' = [IntV 1, NoneV]"
    by (simp add: column_vals_def gaps_def)
  have rangeg: "list_all in_float_range (column_vals gaps ''g'')"
    by code_simp
  have one: "float_of_int 1 = Some 1" by code_simp
  from clean_special_characters_ascii_cells [of gaps "''g''"] hasg rangeg obtain G where
    G: "returned (clean_special_characters gaps ''g'') = Inr (Some G)"
       "length (column_vals G ''g'') = length (column_vals gaps ''g'')"
       "\<forall>i<length (column_vals gaps ''g'').
              case column_vals gaps ''g'' ! i of
                StrV s \<Rightarrow>
                  column_vals G ''g'' ! i =
                    StrV (filter (\<lambda>c. is_ascii_letter c \<or> is_digit c \<or> is_space c)
                            (map (\<lambda>c. if c = CHR ''&'' then CHR ''E'' else c) s))
              | IntV k \<Rightarrow>
                  column_vals G ''g'' ! i = IntV k \<or>
                  (\<exists>j. float_of_int k = Some j \<and> column_vals G ''g'' ! i = FloatV j)
              | NoneV \<Rightarrow> column_vals G ''g'' ! i = NoneV \<or> column_vals G ''g'' ! i = NaN
              | v \<Rightarrow> column_vals G ''g'' ! i = v"
    by blast
  have "map_sum id (map_option (\<lambda>R. column_vals R ''g'')) (returned (clean_special_characters gaps ''g'')) =
      Inr (Some [FloatV 1, NaN])"
    by code_simp
  then have g: "column_vals G ''g'' = [FloatV 1, NaN]"
    by (simp add: G(1))
  from has range str hasnt R(1,2) doc n R(5) absent hasg rangeg G(1) g show ?thesis by blast
qed

text \<open>
  The claim as it stands fails twice. The letter e with an acute accent, code point
  233, is a letter and is deleted from the string of \<open>cafe\<close>, where the claim keeps
  every letter; and in \<open>gaps\<close> the two cells that are no strings do not pass
  through unchanged.
\<close>

theorem clean_special_characters_letter_counterexample:
  "is_letter (CHR 0xE9) \<and>
   column_vals cafe ''place'' = [StrV (''Caf'' @ [CHR 0xE9] @ '' & Bar'')] \<and>
   map claimed_clean_text (column_vals cafe ''place'') =
     [StrV (''Caf'' @ [CHR 0xE9] @ '' E Bar'')] \<and>
   returned (clean_special_characters cafe ''place'') =
     Inr (Some \<lparr>index = [0],
                columns = [\<lparr>name = ''place'', dtype = DObject,
                            vals = [StrV ''Caf E Bar'']\<rparr>]\<rparr>) \<and>
   column_vals gaps ''g'' = [IntV 1, NoneV] \<and>
   returned (clean_special_characters gaps ''g'') =
     Inr (Some \<lparr>index = [0, 1],
                columns = [\<lparr>name = ''g'', dtype = DObject, vals = [FloatV 1, NaN]\<rparr>]\<rparr>)"
  by code_simp

section \<open>format_document\<close>

lemma space_not_digit: "is_space c \<Longrightarrow> \<not> is_digit c"
  by (auto simp: is_space_def is_digit_def)

lemma filter_dropWhile_disjoint:
  "(\<And>x. Q x \<Longrightarrow> \<not> P x) \<Longrightarrow> filter P (dropWhile Q xs) = filter P xs"
  by (induction xs) auto

lemma digits_of_stripped: "filter is_digit (py_strip s) = filter is_digit s"
proof -
  have "filter is_digit (py_strip s) =
        rev (filter is_digit (dropWhile is_space (rev (dropWhile is_space s))))"
    by (simp add: py_strip_def rev_filter)
  also have "\<dots> = rev (filter is_digit (rev (dropWhile is_space s)))"
    by (simp add: filter_dropWhile_disjoint space_not_digit)
  also have "\<dots> = filter is_digit (dropWhile is_space s)"
    by (simp add: rev_filter)
  also have "\<dots> = filter is_digit s"
    by (simp add: filter_dropWhile_disjoint space_not_digit)
  finally show ?thesis .
qed

lemma non_digit_class: "re_sub_class class_non_digit s = filter is_digit s"
  by (simp add: re_sub_class_def class_non_digit_def)

lemma zfill_digits:
  assumes "\<forall>c\<in>set d. is_digit c" and "int (length d) < n"
  shows "py_zfill d n = replicate (nat n - length d) (CHR ''0'') @ d"
proof -
  have pad: "nat (n - int (length d)) = nat n - length d" using assms(2) by simp
  show ?thesis
  proof (cases d)
    case Nil
    with assms(2) show ?thesis by (simp add: py_zfill_def)
  next
    case (Cons c rest)
    with assms(1) have "is_digit c" by simp
    then have "c \<noteq> CHR ''+'' \<and> c \<noteq> CHR ''-''" by (auto simp: is_digit_def)
    with Cons assms(2) pad show ?thesis by (simp add: py_zfill_def Let_def)
  qed
qed

lemma process_cell:
  assumes "0 \<le> n"
  shows "process n v =
     (if pd_isna v \<or> py_lower (py_strip (py_str v)) \<in> {[], ''nan'', ''none''} then NoneV
      else let d = filter is_digit (py_str v)
           in StrV (if length d < nat n then replicate (nat n - length d) (CHR ''0'') @ d
                    else take (nat n) d))"
proof -
  let ?d = "filter is_digit (py_str v)"
  have dig: "re_sub_class class_non_digit (py_strip (py_str v)) = ?d"
    by (simp add: non_digit_class digits_of_stripped)
  have all: "\<forall>c\<in>set ?d. is_digit c" by simp
  have lt: "(int (length ?d) < n) = (length ?d < nat n)" using assms by linarith
  have short: "py_zfill ?d n = replicate (nat n - length ?d) (CHR ''0'') @ ?d"
    if "length ?d < nat n"
    using all that lt by (intro zfill_digits) simp_all
  have long: "py_slice_to ?d n = take (nat n) ?d"
    using assms by (simp add: py_slice_to_def)
  have same: "take (nat n) ?d = ?d" if "\<not> length ?d < nat n" "\<not> int (length ?d) > n"
    using that assms by simp
  show ?thesis
    unfolding process_def dig Let_def
    using short long same lt by auto
qed

text \<open>
  Claim C2, as amended. With the column \<open>C\<close> present and a size that is not
  negative, \<open>format_document\<close> returns a copy of the table in which every cell of
  \<open>C\<close> is: the missing value \<open>None\<close>, when the cell is missing or its \<open>str\<close>, with the
  whitespace at both ends taken off and put in lower case, is empty, \<open>nan\<close> or
  \<open>none\<close>; otherwise the digits of its \<open>str\<close>, padded on the left with \<open>0\<close> to the
  size when they are fewer, cut to the first \<open>size\<close> digits when they are more. The
  other columns and the caller's table are as before. Without the column the call
  returns \<open>None\<close>. With size 11, \<open>123\<close> gives \<open>00000000123\<close>, \<open>123456789012\<close> gives
  its first 11 digits, and the empty string and \<open>NaN\<close> give the missing value.
\<close>

theorem format_document_cells:
  "(has_column T C \<and> 0 \<le> n \<longrightarrow>
      (\<exists>R. returned (format_document T C n) = Inr (Some R) \<and>
           caller_df (format_document T C n) = T \<and>
           column_vals R C =
             map (\<lambda>v. if pd_isna v \<or> py_lower (py_strip (py_str v)) \<in> {[], ''nan'', ''none''}
                      then NoneV
                      else let d = filter is_digit (py_str v)
                           in StrV (if length d < nat n
                                    then replicate (nat n - length d) (CHR ''0'') @ d
                                    else take (nat n) d))
                 (column_vals T C) \<and>
           (\<forall>D. D \<noteq> C \<longrightarrow> column_vals R D = column_vals T D))) \<and>
   (\<not> has_column T C \<longrightarrow> returned (format_document T C n) = Inr None) \<and>
   process 11 (StrV ''123'') = StrV ''00000000123'' \<and>
   process 11 (StrV ''123456789012'') = StrV ''12345678901'' \<and>
   process 11 (StrV []) = NoneV \<and>
   process 11 (StrV ''NaN'') = NoneV"
proof (intro conjI impI)
  assume asm: "has_column T C \<and> 0 \<le> n"
  then have has: "has_column T C" and n: "0 \<le> n" by simp_all
  from getitem_column_vals [OF has] obtain s where
    s: "getitem T C = Inr s" "vals s = column_vals T C" by blast
  let ?s' = "with_result s (map (process n) (vals s))"
  have kinds: "process n v = NoneV \<or> isinstance_str (process n v)" for v
    by (simp add: process_def Let_def)
  have vs': "vals ?s' = map (process n) (vals s)"
    by (rule vals_with_result_strings_or_none) (use kinds in auto)
  let ?R = "setitem T C ?s'"
  have out: "format_document T C n = \<lparr>caller_df = T, printed = [], returned = Inr (Some ?R)\<rparr>"
    using has by (simp add: format_document_def s(1) series_apply_total)
  have cells: "process n = (\<lambda>v. if pd_isna v \<or> py_lower (py_strip (py_str v)) \<in> {[], ''nan'', ''none''}
                      then NoneV
                      else let d = filter is_digit (py_str v)
                           in StrV (if length d < nat n
                                    then replicate (nat n - length d) (CHR ''0'') @ d
                                    else take (nat n) d))"
    by (rule ext) (rule process_cell [OF n])
  show "\<exists>R. returned (format_document T C n) = Inr (Some R) \<and>
           caller_df (format_document T C n) = T \<and>
           column_vals R C =
             map (\<lambda>v. if pd_isna v \<or> py_lower (py_strip (py_str v)) \<in> {[], ''nan'', ''none''}
                      then NoneV
                      else let d = filter is_digit (py_str v)
                           in StrV (if length d < nat n
                                    then replicate (nat n - length d) (CHR ''0'') @ d
                                    else take (nat n) d))
                 (column_vals T C) \<and>
           (\<forall>D. D \<noteq> C \<longrightarrow> column_vals R D = column_vals T D)"
  proof (intro exI [of _ ?R] conjI allI impI)
    show "returned (format_document T C n) = Inr (Some ?R)" by (simp add: out)
    show "caller_df (format_document T C n) = T" by (simp add: out)
    show "column_vals ?R C =
             map (\<lambda>v. if pd_isna v \<or> py_lower (py_strip (py_str v)) \<in> {[], ''nan'', ''none''}
                      then NoneV
                      else let d = filter is_digit (py_str v)
                           in StrV (if length d < nat n
                                    then replicate (nat n - length d) (CHR ''0'') @ d
                                    else take (nat n) d))
                 (column_vals T C)"
    proof -
      have "column_vals ?R C = map (process n) (column_vals T C)"
        using has by (simp add: column_vals_setitem_same vs' [unfolded s(2)] s(2))
      then show ?thesis by (simp only: cells [symmetric])
    qed
    show "column_vals ?R D = column_vals T D" if "D \<noteq> C" for D
      using has that by (rule column_vals_setitem_other)
  qed
next
  assume "\<not> has_column T C"
  then show "returned (format_document T C n) = Inr None"
    by (simp add: format_document_def)
next
  show "process 11 (StrV ''123'') = StrV ''00000000123''" by code_simp
  show "process 11 (StrV ''123456789012'') = StrV ''12345678901''" by code_simp
  show "process 11 (StrV []) = NoneV" by code_simp
  show "process 11 (StrV ''NaN'') = NoneV" by code_simp
qed

theorem format_document_cells_witness:
  "has_column demo ''doc'' \<and> (0::int) \<le> 11 \<and> \<not> has_column demo ''zz'' \<and>
   (\<exists>R. returned (format_document demo ''doc'' 11) = Inr (Some R) \<and>
        column_vals R ''doc'' = [StrV ''00000000001'', StrV ''00000000123'', NoneV, NoneV] \<and>
        column_vals R ''n'' = column_vals demo ''n'') \<and>
   returned (format_document demo ''zz'' 11) = Inr None"
proof -
  have has: "has_column demo ''doc''" by (simp add: has_column_def demo_def)
  have hasnt: "\<not> has_column demo ''zz''" by (simp add: has_column_def demo_def)
  have cv: "column_vals demo ''doc'' = [StrV ''A&B #1!'', IntV 123, NaN, NoneV]"
    by (simp add: column_vals_def demo_def)
  have ev: "map (\<lambda>v. if pd_isna v \<or> py_lower (py_strip (py_str v)) \<in> {[], ''nan'', ''none''}
                      then NoneV
                      else let d = filter is_digit (py_str v)
                           in StrV (if length d < nat 11
                                    then replicate (nat 11 - length d) (CHR ''0'') @ d
                                    else take (nat 11) d))
                 [StrV ''A&B #1!'', IntV 123, NaN, NoneV]
            = [StrV ''00000000001'', StrV ''00000000123'', NoneV, NoneV]"
    by code_simp
  have ne: "''n'' \<noteq> ''doc''" by simp
  from format_document_cells [of demo "''doc''" 11] has obtain R where
    R: "returned (format_document demo ''doc'' 11) = Inr (Some R)"
       "column_vals R ''doc'' =
             map (\<lambda>v. if pd_isna v \<or> py_lower (py_strip (py_str v)) \<in> {[], ''nan'', ''none''}
                      then NoneV
                      else let d = filter is_digit (py_str v)
                           in StrV (if length d < nat 11
                                    then replicate (nat 11 - length d) (CHR ''0'') @ d
                                    else take (nat 11) d))
                 (column_vals demo ''doc'')"
       "\<forall>D. D \<noteq> ''doc'' \<longrightarrow> column_vals R D = column_vals demo D"
    by auto
  from R(2) have "column_vals R ''doc'' = [StrV ''00000000001'', StrV ''00000000123'', NoneV, NoneV]"
    by (simp only: cv ev)
  moreover from R(3) ne have "column_vals R ''n'' = column_vals demo ''n''" by blast
  moreover from format_document_cells [of demo "''zz''" 11] hasnt
  have "returned (format_document demo ''zz'' 11) = Inr None" by blast
  ultimately show ?thesis using has hasnt R(1) by auto
qed

text \<open>
  Claim C2, as stated, makes the missing value of a missing cell, of the empty
  string and of \<open>nan\<close> and \<open>none\<close> only. A cell that holds one space is none of
  these, so the claim gives it eleven zeros; the function strips it first and gives
  the missing value.
\<close>

theorem format_document_blank_counterexample:
  "returned (format_document blank_doc ''doc'' 11) =
     Inr (Some \<lparr>index = [0], columns = [\<lparr>name = ''doc'', dtype = DObject, vals = [NoneV]\<rparr>]\<rparr>) \<and>
   map (claimed_document_cell 11) (column_vals blank_doc ''doc'') = [StrV ''00000000000'']"
  by code_simp

section \<open>format_phone_number\<close>

lemma apply_values_strings:
  "(\<And>s. f (StrV s) = Inr (g s)) \<Longrightarrow>
   apply_values f (map (\<lambda>v. StrV (py_str v)) vs) = Inr (map (\<lambda>v. g (py_str v)) vs)"
  by (induction vs) auto

lemma has_column_setitem: "has_column df C \<Longrightarrow> has_column (setitem df C s) C"
  using names_setitem [of df C s] by (simp add: has_column_def)

text \<open>
  The two steps \<open>astype(str)\<close> and \<open>apply(f)\<close> on a column, for an \<open>f\<close> that
  accepts every string.
\<close>

lemma astype_then_apply:
  assumes has: "has_column T C" and f: "\<And>s. f (StrV s) = Inr (g s)"
      and plain: "\<And>s. isinstance_str (g s) \<or> is_int (g s)"
  shows "\<exists>s s1 s2. getitem T C = Inr s \<and>
           getitem (setitem T C (astype_str s)) C = Inr s1 \<and>
           vals s1 = map (\<lambda>v. StrV (py_str v)) (column_vals T C) \<and>
           series_apply f s1 = Inr s2 \<and>
           vals s2 = map (\<lambda>v. g (py_str v)) (column_vals T C)"
proof -
  from getitem_column_vals [OF has] obtain s where
    s: "getitem T C = Inr s" "vals s = column_vals T C" by blast
  let ?T1 = "setitem T C (astype_str s)"
  let ?rs = "map (\<lambda>v. g (py_str v)) (column_vals T C)"
  have has1: "has_column ?T1 C" using has by (rule has_column_setitem)
  from getitem_column_vals [OF has1] obtain s1 where
    s1: "getitem ?T1 C = Inr s1" "vals s1 = column_vals ?T1 C" by blast
  have v1: "vals s1 = map (\<lambda>v. StrV (py_str v)) (column_vals T C)"
    using has by (simp add: s1(2) column_vals_setitem_same astype_str_def s(2))
  have "apply_values f (vals s1) = Inr ?rs"
    unfolding v1 using f by (rule apply_values_strings)
  then have ap: "series_apply f s1 = Inr (with_result s1 ?rs)"
    by (simp add: series_apply_def)
  have "vals (with_result s1 ?rs) = ?rs"
    by (rule vals_with_result_strings_or_ints) (use plain in auto)
  with s(1) s1(1) v1 ap show ?thesis by auto
qed

lemma format_phone_number_present:
  assumes has: "has_column T C"
  shows "\<exists>R. returned (format_phone_number T C) = Inr (Some R) \<and>
           caller_df (format_phone_number T C) = T \<and>
           column_vals R C = map (\<lambda>v. StrV (filter is_digit (py_str v))) (column_vals T C) \<and>
           (\<forall>D. D \<noteq> C \<longrightarrow> column_vals R D = column_vals T D)"
proof -
  have f: "\<And>s. process_phone (StrV s) = Inr (StrV (filter is_digit s))"
    by (simp add: process_phone_def non_digit_class)
  have plain: "\<And>s. isinstance_str (StrV (filter is_digit s)) \<or> is_int (StrV (filter is_digit s))"
    by simp
  from astype_then_apply [of T C process_phone "\<lambda>s. StrV (filter is_digit s)", OF has f plain]
  obtain s s1 s2 where
    st: "getitem T C = Inr s" "getitem (setitem T C (astype_str s)) C = Inr s1"
        "series_apply process_phone s1 = Inr s2"
        "vals s2 = map (\<lambda>v. StrV (filter is_digit (py_str v))) (column_vals T C)"
    by blast
  let ?T1 = "setitem T C (astype_str s)"
  let ?R = "setitem ?T1 C s2"
  have has1: "has_column ?T1 C" using has by (rule has_column_setitem)
  have out: "format_phone_number T C = \<lparr>caller_df = T, printed = [], returned = Inr (Some ?R)\<rparr>"
    using has by (simp add: format_phone_number_def st(1,2,3) Let_def)
  show ?thesis
  proof (intro exI [of _ ?R] conjI allI impI)
    show "returned (format_phone_number T C) = Inr (Some ?R)" by (simp add: out)
    show "caller_df (format_phone_number T C) = T" by (simp add: out)
    show "column_vals ?R C = map (\<lambda>v. StrV (filter is_digit (py_str v))) (column_vals T C)"
      using has1 by (simp add: column_vals_setitem_same st(4))
    show "column_vals ?R D = column_vals T D" if "D \<noteq> C" for D
      using has has1 that by (simp add: column_vals_setitem_other)
  qed
qed

text \<open>
  Claim C6. With the column \<open>C\<close> present, \<open>format_phone_number\<close> returns a copy of the
  table in which every cell of \<open>C\<close> is the string of the digits of its \<open>str\<close>, all of
  them and nothing else, so of whatever length; the other columns and the caller's
  table are as before. Without the column the call returns \<open>None\<close>. The string
  \<open>(11) 98888-7777\<close> gives \<open>11988887777\<close>.
\<close>

theorem format_phone_number_digits:
  "(has_column T C \<longrightarrow>
      (\<exists>R. returned (format_phone_number T C) = Inr (Some R) \<and>
           caller_df (format_phone_number T C) = T \<and>
           column_vals R C = map (\<lambda>v. StrV (filter is_digit (py_str v))) (column_vals T C) \<and>
           (\<forall>D. D \<noteq> C \<longrightarrow> column_vals R D = column_vals T D))) \<and>
   (\<not> has_column T C \<longrightarrow> returned (format_phone_number T C) = Inr None) \<and>
   process_phone (StrV ''(11) 98888-7777'') = Inr (StrV ''11988887777'')"
proof (intro conjI impI)
  assume "has_column T C"
  then show "\<exists>R. returned (format_phone_number T C) = Inr (Some R) \<and>
           caller_df (format_phone_number T C) = T \<and>
           column_vals R C = map (\<lambda>v. StrV (filter is_digit (py_str v))) (column_vals T C) \<and>
           (\<forall>D. D \<noteq> C \<longrightarrow> column_vals R D = column_vals T D)"
    by (rule format_phone_number_present)
next
  assume "\<not> has_column T C"
  then show "returned (format_phone_number T C) = Inr None"
    by (simp add: format_phone_number_def)
next
  show "process_phone (StrV ''(11) 98888-7777'') = Inr (StrV ''11988887777'')"
    by (simp add: process_phone_def non_digit_class is_digit_def)
qed

text \<open>
  Claim C9, as amended. With the column \<open>C\<close> present, the column \<open>C\<close> of the table
  \<open>format_phone_number\<close> returns holds no missing value: a missing cell is first
  stringified, \<open>nan\<close> to the string \<open>nan\<close> and \<open>None\<close> to the string \<open>None\<close>, and
  neither string has a digit, so the cell becomes the empty string.
  \<open>format_document\<close>, unlike it, gives the missing value for a missing cell.
\<close>

theorem format_phone_number_no_missing:
  "(has_column T C \<longrightarrow>
      (\<exists>R. returned (format_phone_number T C) = Inr (Some R) \<and>
           length (column_vals R C) = length (column_vals T C) \<and>
           list_all (\<lambda>v. \<not> pd_isna v) (column_vals R C) \<and>
           (\<forall>i<length (column_vals T C).
               pd_isna (column_vals T C ! i) \<longrightarrow> column_vals R C ! i = StrV []))) \<and>
   py_str NaN = ''nan'' \<and> py_str NoneV = ''None'' \<and>
   re_sub_class class_non_digit ''nan'' = [] \<and> re_sub_class class_non_digit ''None'' = [] \<and>
   (\<forall>n v. pd_isna v \<longrightarrow> process n v = NoneV)"
proof (intro conjI impI allI)
  assume has: "has_column T C"
  from format_phone_number_present [OF has] obtain R where
    R: "returned (format_phone_number T C) = Inr (Some R)"
       "column_vals R C = map (\<lambda>v. StrV (filter is_digit (py_str v))) (column_vals T C)"
    by blast
  have miss: "filter is_digit (py_str v) = []" if "pd_isna v" for v
    using that by (cases v) (simp_all add: is_digit_def)
  show "\<exists>R. returned (format_phone_number T C) = Inr (Some R) \<and>
           length (column_vals R C) = length (column_vals T C) \<and>
           list_all (\<lambda>v. \<not> pd_isna v) (column_vals R C) \<and>
           (\<forall>i<length (column_vals T C).
               pd_isna (column_vals T C ! i) \<longrightarrow> column_vals R C ! i = StrV [])"
  proof (intro exI [of _ R] conjI allI impI)
    show "returned (format_phone_number T C) = Inr (Some R)" by (rule R(1))
    show "length (column_vals R C) = length (column_vals T C)" by (simp add: R(2))
    show "list_all (\<lambda>v. \<not> pd_isna v) (column_vals R C)"
      by (simp add: R(2) list_all_iff)
    show "column_vals R C ! i = StrV []"
      if "i < length (column_vals T C)" "pd_isna (column_vals T C ! i)" for i
      using that by (simp add: R(2) miss)
  qed
next
  show "py_str NaN = ''nan''" by simp
  show "py_str NoneV = ''None''" by simp
  show "re_sub_class class_non_digit ''nan'' = []" by (simp add: non_digit_class is_digit_def)
  show "re_sub_class class_non_digit ''None'' = []" by (simp add: non_digit_class is_digit_def)
  show "process n v = NoneV" if "pd_isna v" for n v
    using that by (simp add: process_def)
qed

theorem format_phone_number_no_missing_witness:
  "has_column phones ''phone'' \<and>
   (\<exists>R. returned (format_phone_number phones ''phone'') = Inr (Some R) \<and>
        list_all (\<lambda>v. \<not> pd_isna v) (column_vals R ''phone'') \<and>
        pd_isna (column_vals phones ''phone'' ! 2) \<and> column_vals R ''phone'' ! 2 = StrV [] \<and>
        pd_isna (column_vals phones ''phone'' ! 3) \<and> column_vals R ''phone'' ! 3 = StrV [])"
proof -
  have has: "has_column phones ''phone''" by (simp add: has_column_def phones_def)
  have cv: "column_vals phones ''phone'' = [StrV ''(11) 98888-7777'', IntV 5511, NaN, NoneV]"
    by (simp add: column_vals_def phones_def)
  from format_phone_number_no_missing [of phones "''phone''"] has obtain R where
    R: "returned (format_phone_number phones ''phone'') = Inr (Some R)"
       "list_all (\<lambda>v. \<not> pd_isna v) (column_vals R ''phone'')"
       "\<forall>i<length (column_vals phones ''phone'').
           pd_isna (column_vals phones ''phone'' ! i) \<longrightarrow> column_vals R ''phone'' ! i = StrV []"
    by blast
  from R(3) have "column_vals R ''phone'' ! 2 = StrV []" "column_vals R ''phone'' ! 3 = StrV []"
    by (simp_all add: cv)
  with R(1,2) has show ?thesis by (auto simp: cv)
qed

text \<open>
  Claim C9, as stated, has every missing cell stringified to \<open>nan\<close>. A cell that
  holds \<open>None\<close> is missing, and \<open>astype(str)\<close>, the first step of the function, makes
  it the string \<open>None\<close>.
\<close>

theorem format_phone_number_none_counterexample:
  "column_vals none_phone ''phone'' = [NoneV] \<and> pd_isna NoneV \<and>
   getitem none_phone ''phone'' = Inr \<lparr>name = ''phone'', dtype = DObject, vals = [NoneV]\<rparr> \<and>
   column_vals
     (setitem none_phone ''phone''
        (astype_str \<lparr>name = ''phone'', dtype = DObject, vals = [NoneV]\<rparr>)) ''phone''
     = [StrV ''None''] \<and>
   StrV ''None'' \<noteq> StrV ''nan''"
  by (simp add: column_vals_def none_phone_def getitem_def setitem_def has_column_def astype_str_def)

theorem format_phone_number_digits_witness:
  "has_column phones ''phone'' \<and> \<not> has_column phones ''zz'' \<and>
   (\<exists>R. returned (format_phone_number phones ''phone'') = Inr (Some R) \<and>
        column_vals R ''phone'' = [StrV ''11988887777'', StrV ''5511'', StrV [], StrV []]) \<and>
   returned (format_phone_number phones ''zz'') = Inr None"
proof -
  have has: "has_column phones ''phone''" by (simp add: has_column_def phones_def)
  have hasnt: "\<not> has_column phones ''zz''" by (simp add: has_column_def phones_def)
  have ev: "map (\<lambda>v. StrV (filter is_digit (py_str v))) (column_vals phones ''phone'')
            = [StrV ''11988887777'', StrV ''5511'', StrV [], StrV []]"
    by code_simp
  from format_phone_number_digits [of phones "''phone''"] has obtain R where
    R: "returned (format_phone_number phones ''phone'') = Inr (Some R)"
       "column_vals R ''phone'' =
          map (\<lambda>v. StrV (filter is_digit (py_str v))) (column_vals phones ''phone'')"
    by blast
  from R(2) have "column_vals R ''phone'' = [StrV ''11988887777'', StrV ''5511'', StrV [], StrV []]"
    by (simp only: ev)
  moreover from format_phone_number_digits [of phones "''zz''"] hasnt
  have "returned (format_phone_number phones ''zz'') = Inr None" by blast
  ultimately show ?thesis using has hasnt R(1) by blast
qed

section \<open>filter_by_different_char_count\<close>

lemma wf_frame_setitem:
  assumes "wf_frame df" and "length (vals s) = length (index df)"
      and "list_all (conforms (dtype s)) (vals s)"
  shows "wf_frame (setitem df C s)"
proof (cases "has_column df C")
  case True
  then have "map name (columns (setitem df C s)) = map name (columns df)" by (rule names_setitem)
  with assms(1) have "distinct (map name (columns (setitem df C s)))"
    by (simp add: wf_frame_def)
  moreover have "list_all (\<lambda>c. length (vals c) = length (index (setitem df C s)) \<and>
                           list_all (conforms (dtype c)) (vals c)) (columns (setitem df C s))"
    using assms True by (auto simp: wf_frame_def setitem_def list_all_iff)
  ultimately show ?thesis by (simp add: wf_frame_def)
next
  case False
  with assms show ?thesis
    by (auto simp: wf_frame_def setitem_def list_all_iff has_column_def)
qed

lemma filter_by_different_char_count_present:
  assumes has: "has_column T C"
  shows "\<exists>T1. caller_df (filter_by_different_char_count T C n) = T1 \<and>
           column_vals T1 C = map (\<lambda>v. StrV (py_str v)) (column_vals T C) \<and>
           (\<forall>D. D \<noteq> C \<longrightarrow> column_vals T1 D = column_vals T D) \<and>
           index T1 = index T \<and>
           map name (columns T1) = map name (columns T) \<and>
           (wf_frame T \<longrightarrow> wf_frame T1) \<and>
           returned (filter_by_different_char_count T C n) =
             Inr (getitem_mask T1 (map (\<lambda>v. int (length (py_str v)) \<noteq> n) (column_vals T C)))"
proof -
  have f: "\<And>s. py_len (StrV s) = Inr (IntV (int (length s)))"
    by (simp add: py_len_def)
  have plain: "\<And>s. isinstance_str (IntV (int (length s))) \<or> is_int (IntV (int (length s)))"
    by simp
  from astype_then_apply [of T C py_len "\<lambda>s. IntV (int (length s))", OF has f plain]
  obtain s s1 lens where
    st: "getitem T C = Inr s" "getitem (setitem T C (astype_str s)) C = Inr s1"
        "vals s1 = map (\<lambda>v. StrV (py_str v)) (column_vals T C)"
        "series_apply py_len s1 = Inr lens"
        "vals lens = map (\<lambda>v. IntV (int (length (py_str v)))) (column_vals T C)"
    by blast
  from getitem_column_vals [OF has] st(1) have vs: "vals s = column_vals T C" by auto
  let ?T1 = "setitem T C (astype_str s)"
  have bits: "series_ne lens (IntV n) = map (\<lambda>v. int (length (py_str v)) \<noteq> n) (column_vals T C)"
    by (simp add: series_ne_def st(5) cell_eq_def)
  have out: "filter_by_different_char_count T C n =
      \<lparr>caller_df = ?T1, printed = [],
       returned = Inr (getitem_mask ?T1 (map (\<lambda>v. int (length (py_str v)) \<noteq> n) (column_vals T C)))\<rparr>"
    using has by (simp add: filter_by_different_char_count_def st(1,2,4) Let_def bits)
  have wf: "wf_frame ?T1" if "wf_frame T"
  proof (rule wf_frame_setitem [OF that])
    from find_name_Some [OF has] st(1) have "s \<in> set (columns T)"
      by (auto simp: getitem_def)
    with that show "length (vals (astype_str s)) = length (index T)"
      by (simp add: astype_str_def wf_frame_lengths)
    show "list_all (conforms (dtype (astype_str s))) (vals (astype_str s))"
      by (simp add: astype_str_def list_all_iff)
  qed
  show ?thesis
  proof (intro exI [of _ ?T1] conjI allI impI)
    show "caller_df (filter_by_different_char_count T C n) = ?T1" by (simp add: out)
    show "column_vals ?T1 C = map (\<lambda>v. StrV (py_str v)) (column_vals T C)"
      using has by (simp add: column_vals_setitem_same astype_str_def vs)
    show "column_vals ?T1 D = column_vals T D" if "D \<noteq> C" for D
      using has that by (rule column_vals_setitem_other)
    show "index ?T1 = index T" by (rule index_setitem)
    show "map name (columns ?T1) = map name (columns T)" using has by (rule names_setitem)
    show "wf_frame ?T1" if "wf_frame T" using that by (rule wf)
    show "returned (filter_by_different_char_count T C n) =
             Inr (getitem_mask ?T1 (map (\<lambda>v. int (length (py_str v)) \<noteq> n) (column_vals T C)))"
      by (simp add: out)
  qed
qed


lemma wf_column_length:
  "wf_frame df \<Longrightarrow> has_column df D \<Longrightarrow> length (column_vals df D) = length (index df)"
  using find_name_Some [of df D] by (auto simp: column_vals_def wf_frame_lengths)

lemma take_mask_predicate:
  assumes "length xs = length vs"
  shows "take_mask (map p vs) xs = map ((!) xs) (filter (\<lambda>i. p (vs ! i)) [0..<length vs])"
proof -
  have "take_mask (map p vs) xs = map ((!) xs) (filter ((!) (map p vs)) [0..<length xs])"
    using assms by (intro take_mask_nth) simp
  also have "filter ((!) (map p vs)) [0..<length xs] = filter (\<lambda>i. p (vs ! i)) [0..<length vs]"
    using assms by (intro filter_cong) simp_all
  finally show ?thesis .
qed

lemma stringified_fixpoint:
  "vs = map (\<lambda>v. StrV (py_str v)) vs \<Longrightarrow> \<forall>v\<in>set vs. isinstance_str v"
proof (induction vs)
  case Nil
  then show ?case by simp
next
  case (Cons v vs)
  then have "v = StrV (py_str v)" and "vs = map (\<lambda>v. StrV (py_str v)) vs" by simp_all
  with Cons.IH show ?case by (cases v) simp_all
qed

text \<open>
  Claim C7. For a well-formed table \<open>T\<close> with the column \<open>C\<close> and a count \<open>n\<close>,
  \<open>filter_by_different_char_count\<close> returns the rows of \<open>T\<close> whose cell in \<open>C\<close> has a
  \<open>str\<close> of a length other than \<open>n\<close>, all of them and no other, in their order:
  their labels, their cells in the other columns, and in \<open>C\<close> the \<open>str\<close> of their
  cell, which is what the call has put in the caller's table. Without the column
  the call raises \<open>ValueError\<close>.
\<close>

theorem filter_by_different_char_count_rows:
  "(wf_frame T \<and> has_column T C \<longrightarrow>
      (\<exists>R. returned (filter_by_different_char_count T C n) = Inr R \<and>
           index R = map ((!) (index T)) (rows_of_other_length (column_vals T C) n) \<and>
           column_vals R C =
             map (\<lambda>i. StrV (py_str (column_vals T C ! i)))
               (rows_of_other_length (column_vals T C) n) \<and>
           (\<forall>D. has_column T D \<and> D \<noteq> C \<longrightarrow>
                column_vals R D =
                  map ((!) (column_vals T D)) (rows_of_other_length (column_vals T C) n)) \<and>
           map name (columns R) = map name (columns T) \<and>
           subseq (rows_of R) (rows_of (caller_df (filter_by_different_char_count T C n))))) \<and>
   (\<not> has_column T C \<longrightarrow>
      returned (filter_by_different_char_count T C n) = Inl (ValueError (column_missing C)))"
proof (intro conjI impI)
  assume asm: "wf_frame T \<and> has_column T C"
  then have wf: "wf_frame T" and has: "has_column T C" by simp_all
  let ?K = "rows_of_other_length (column_vals T C) n"
  let ?bits = "map (\<lambda>v. int (length (py_str v)) \<noteq> n) (column_vals T C)"
  from filter_by_different_char_count_present [OF has, of n] wf obtain T1 where
    T1: "caller_df (filter_by_different_char_count T C n) = T1"
        "column_vals T1 C = map (\<lambda>v. StrV (py_str v)) (column_vals T C)"
        "\<forall>D. D \<noteq> C \<longrightarrow> column_vals T1 D = column_vals T D"
        "index T1 = index T"
        "map name (columns T1) = map name (columns T)"
        "wf_frame T1"
        "returned (filter_by_different_char_count T C n) = Inr (getitem_mask T1 ?bits)"
    by blast
  let ?R = "getitem_mask T1 ?bits"
  have lenC: "length (column_vals T C) = length (index T)" using wf has by (rule wf_column_length)
  show "\<exists>R. returned (filter_by_different_char_count T C n) = Inr R \<and>
           index R = map ((!) (index T)) ?K \<and>
           column_vals R C = map (\<lambda>i. StrV (py_str (column_vals T C ! i))) ?K \<and>
           (\<forall>D. has_column T D \<and> D \<noteq> C \<longrightarrow> column_vals R D = map ((!) (column_vals T D)) ?K) \<and>
           map name (columns R) = map name (columns T) \<and>
           subseq (rows_of R) (rows_of (caller_df (filter_by_different_char_count T C n)))"
  proof (intro exI [of _ ?R] conjI allI impI)
    show "returned (filter_by_different_char_count T C n) = Inr ?R" by (rule T1(7))
    show "index ?R = map ((!) (index T)) ?K"
      using take_mask_predicate [of "index T" "column_vals T C" "\<lambda>v. int (length (py_str v)) \<noteq> n"] lenC
      by (simp add: getitem_mask_def T1(4) rows_of_other_length_def)
    have "column_vals ?R C = take_mask ?bits (map (\<lambda>v. StrV (py_str v)) (column_vals T C))"
      by (simp add: column_vals_getitem_mask T1(2))
    also have "\<dots> = map ((!) (map (\<lambda>v. StrV (py_str v)) (column_vals T C))) ?K"
      unfolding rows_of_other_length_def by (rule take_mask_predicate) simp
    also have "\<dots> = map (\<lambda>i. StrV (py_str (column_vals T C ! i))) ?K"
      by (rule map_cong) (simp_all add: rows_of_other_length_def)
    finally show "column_vals ?R C = map (\<lambda>i. StrV (py_str (column_vals T C ! i))) ?K" .
    show "column_vals ?R D = map ((!) (column_vals T D)) ?K" if "has_column T D \<and> D \<noteq> C" for D
    proof -
      from that wf have "length (column_vals T D) = length (column_vals T C)"
        by (simp add: wf_column_length lenC)
      then have "take_mask ?bits (column_vals T D) = map ((!) (column_vals T D)) ?K"
        unfolding rows_of_other_length_def by (rule take_mask_predicate)
      with that T1(3) show ?thesis by (simp add: column_vals_getitem_mask)
    qed
    show "map name (columns ?R) = map name (columns T)"
      using T1(5) by (simp add: getitem_mask_def comp_def)
    have "rows_of ?R = take_mask ?bits (rows_of T1)"
      using T1(6) by (rule rows_of_getitem_mask) (simp add: T1(4) lenC)
    then show "subseq (rows_of ?R) (rows_of (caller_df (filter_by_different_char_count T C n)))"
      by (simp add: T1(1) subseq_take_mask)
  qed
next
  assume "\<not> has_column T C"
  then show "returned (filter_by_different_char_count T C n) = Inl (ValueError (column_missing C))"
    by (simp add: filter_by_different_char_count_def)
qed

text \<open>
  Claim C10. With the column \<open>C\<close> present, the call returns a value of its own and
  leaves the caller's table with every cell of \<open>C\<close> replaced by its \<open>str\<close>; the other
  columns, the index and the column names are untouched. When some cell of \<open>C\<close> was
  not a string, the caller's table is no longer the table passed in.
\<close>

theorem filter_by_different_char_count_mutates:
  "has_column T C \<longrightarrow>
     (\<exists>R. returned (filter_by_different_char_count T C n) = Inr R) \<and>
     column_vals (caller_df (filter_by_different_char_count T C n)) C =
       map (\<lambda>v. StrV (py_str v)) (column_vals T C) \<and>
     (\<forall>D. D \<noteq> C \<longrightarrow>
          column_vals (caller_df (filter_by_different_char_count T C n)) D = column_vals T D) \<and>
     index (caller_df (filter_by_different_char_count T C n)) = index T \<and>
     map name (columns (caller_df (filter_by_different_char_count T C n))) = map name (columns T) \<and>
     (list_ex (\<lambda>v. \<not> isinstance_str v) (column_vals T C) \<longrightarrow>
        caller_df (filter_by_different_char_count T C n) \<noteq> T)"
proof
  assume has: "has_column T C"
  from filter_by_different_char_count_present [OF has, of n] obtain T1 where
    T1: "caller_df (filter_by_different_char_count T C n) = T1"
        "column_vals T1 C = map (\<lambda>v. StrV (py_str v)) (column_vals T C)"
        "\<forall>D. D \<noteq> C \<longrightarrow> column_vals T1 D = column_vals T D"
        "index T1 = index T"
        "map name (columns T1) = map name (columns T)"
        "returned (filter_by_different_char_count T C n) =
           Inr (getitem_mask T1 (map (\<lambda>v. int (length (py_str v)) \<noteq> n) (column_vals T C)))"
    by blast
  have changed: "T1 \<noteq> T" if "list_ex (\<lambda>v. \<not> isinstance_str v) (column_vals T C)"
  proof
    assume "T1 = T"
    with T1(2) have "column_vals T C = map (\<lambda>v. StrV (py_str v)) (column_vals T C)" by simp
    then have "\<forall>v\<in>set (column_vals T C). isinstance_str v"
      by (rule stringified_fixpoint)
    with that show False by (simp add: list_ex_iff)
  qed
  show "(\<exists>R. returned (filter_by_different_char_count T C n) = Inr R) \<and>
     column_vals (caller_df (filter_by_different_char_count T C n)) C =
       map (\<lambda>v. StrV (py_str v)) (column_vals T C) \<and>
     (\<forall>D. D \<noteq> C \<longrightarrow>
          column_vals (caller_df (filter_by_different_char_count T C n)) D = column_vals T D) \<and>
     index (caller_df (filter_by_different_char_count T C n)) = index T \<and>
     map name (columns (caller_df (filter_by_different_char_count T C n))) = map name (columns T) \<and>
     (list_ex (\<lambda>v. \<not> isinstance_str v) (column_vals T C) \<longrightarrow>
        caller_df (filter_by_different_char_count T C n) \<noteq> T)"
    using T1 changed by simp
qed


theorem filter_by_different_char_count_rows_witness:
  "wf_frame lengths \<and> has_column lengths ''code'' \<and> \<not> has_column lengths ''zz'' \<and>
   (\<exists>R. returned (filter_by_different_char_count lengths ''code'' 3) = Inr R \<and>
        index R = [11, 13] \<and>
        column_vals R ''code'' = [StrV ''12'', StrV ''None''] \<and>
        column_vals R ''n'' = [IntV 2, IntV 4]) \<and>
   returned (filter_by_different_char_count lengths ''zz'' 3) =
     Inl (ValueError (column_missing ''zz''))"
proof -
  have wf: "wf_frame lengths" by (simp add: wf_frame_def lengths_def)
  have has: "has_column lengths ''code''" by (simp add: has_column_def lengths_def)
  have hasn: "has_column lengths ''n'' \<and> ''n'' \<noteq> ''code''" by (simp add: has_column_def lengths_def)
  have hasnt: "\<not> has_column lengths ''zz''" by (simp add: has_column_def lengths_def)
  have K: "rows_of_other_length [StrV ''abc'', IntV 12, NaN, NoneV] 3 = [1, 3]" by code_simp
  have cv: "column_vals lengths ''code'' = [StrV ''abc'', IntV 12, NaN, NoneV]"
           "column_vals lengths ''n'' = [IntV 1, IntV 2, IntV 3, IntV 4]"
           "index lengths = [10, 11, 12, 13]"
    by (simp_all add: column_vals_def lengths_def)
  have str: "str_int 12 = ''12''" by code_simp
  from filter_by_different_char_count_rows [of lengths "''code''" 3] wf has obtain R where
    R: "returned (filter_by_different_char_count lengths ''code'' 3) = Inr R"
       "index R = map ((!) (index lengths)) (rows_of_other_length (column_vals lengths ''code'') 3)"
       "column_vals R ''code'' =
          map (\<lambda>i. StrV (py_str (column_vals lengths ''code'' ! i)))
            (rows_of_other_length (column_vals lengths ''code'') 3)"
       "\<forall>D. has_column lengths D \<and> D \<noteq> ''code'' \<longrightarrow>
            column_vals R D =
              map ((!) (column_vals lengths D)) (rows_of_other_length (column_vals lengths ''code'') 3)"
    by blast
  from R(2) have "index R = [11, 13]" by (simp add: K cv)
  moreover from R(3) have "column_vals R ''code'' = [StrV ''12'', StrV ''None'']"
    by (simp add: K cv str)
  moreover from R(4) hasn have "column_vals R ''n'' = [IntV 2, IntV 4]"
    by (simp add: K cv)
  moreover from filter_by_different_char_count_rows [of lengths "''zz''" 3] hasnt
  have "returned (filter_by_different_char_count lengths ''zz'' 3) =
          Inl (ValueError (column_missing ''zz''))" by blast
  ultimately show ?thesis using wf has hasnt R(1) by blast
qed

theorem filter_by_different_char_count_mutates_witness:
  "has_column lengths ''code'' \<and>
   list_ex (\<lambda>v. \<not> isinstance_str v) (column_vals lengths ''code'') \<and>
   column_vals (caller_df (filter_by_different_char_count lengths ''code'' 3)) ''code'' =
     [StrV ''abc'', StrV ''12'', StrV ''nan'', StrV ''None''] \<and>
   caller_df (filter_by_different_char_count lengths ''code'' 3) \<noteq> lengths"
proof -
  have has: "has_column lengths ''code''" by (simp add: has_column_def lengths_def)
  have cv: "column_vals lengths ''code'' = [StrV ''abc'', IntV 12, NaN, NoneV]"
    by (simp add: column_vals_def lengths_def)
  have ex: "list_ex (\<lambda>v. \<not> isinstance_str v) (column_vals lengths ''code'')"
    by (simp add: cv)
  have str: "str_int 12 = ''12''" by code_simp
  from filter_by_different_char_count_mutates [of lengths "''code''" 3] has ex
  have "column_vals (caller_df (filter_by_different_char_count lengths ''code'' 3)) ''code'' =
          map (\<lambda>v. StrV (py_str v)) (column_vals lengths ''code'')"
    and "caller_df (filter_by_different_char_count lengths ''code'' 3) \<noteq> lengths"
    by blast+
  then show ?thesis using has ex by (simp add: cv str)
qed

section \<open>A missing column\<close>

text \<open>
  Claim C3, as amended. Called with a column name the table does not have, every
  operation that takes one gives its failure signal and leaves the table as it was:
  \<open>remove_duplicates\<close>, \<open>filter_by_different_char_count\<close> and \<open>limit_column_size\<close>
  raise \<open>ValueError\<close>; \<open>filter_dataframe\<close>, \<open>clean_special_characters\<close>,
  \<open>lowercase_dataframe\<close>, \<open>format_document\<close>, \<open>format_phone_number\<close> and
  \<open>rename_column\<close> print a message and return \<open>None\<close>; \<open>drop_column\<close> returns
  \<open>None\<close> and prints nothing.
\<close>

theorem missing_column_signals:
  "\<not> has_column T C \<longrightarrow>
     remove_duplicates T C =
       \<lparr>caller_df = T, printed = [], returned = Inl (ValueError (column_missing C))\<rparr> \<and>
     filter_dataframe T C parameter =
       \<lparr>caller_df = T, printed = [Line (column_missing C)], returned = Inr None\<rparr> \<and>
     clean_special_characters T C =
       \<lparr>caller_df = T, printed = [Line (column_missing C)], returned = Inr None\<rparr> \<and>
     lowercase_dataframe T C =
       \<lparr>caller_df = T, printed = [Line (column_missing C)], returned = Inr None\<rparr> \<and>
     format_document T C n =
       \<lparr>caller_df = T, printed = [WarnLine (column_missing C)], returned = Inr None\<rparr> \<and>
     drop_column T C = \<lparr>caller_df = T, printed = [], returned = Inr None\<rparr> \<and>
     filter_by_different_char_count T C n =
       \<lparr>caller_df = T, printed = [], returned = Inl (ValueError (column_missing C))\<rparr> \<and>
     limit_column_size T C n =
       \<lparr>caller_df = T, printed = [], returned = Inl (ValueError (column_missing C))\<rparr> \<and>
     format_phone_number T C =
       \<lparr>caller_df = T, printed = [Line (column_missing C)], returned = Inr None\<rparr> \<and>
     rename_column T C new_name =
       \<lparr>caller_df = T,
        printed = [Line (column_missing C), Line ''Error renaming column: ''],
        returned = Inr None\<rparr>"
  by (simp add: remove_duplicates_def filter_dataframe_def clean_special_characters_def
        lowercase_dataframe_def format_document_def drop_column_def
        filter_by_different_char_count_def limit_column_size_def format_phone_number_def
        rename_column_def)

theorem missing_column_signals_witness:
  "\<not> has_column demo ''zz'' \<and>
   caller_df (clean_special_characters demo ''zz'') = demo \<and>
   returned (clean_special_characters demo ''zz'') = Inr None \<and>
   printed (clean_special_characters demo ''zz'') = [Line (column_missing ''zz'')] \<and>
   caller_df (limit_column_size demo ''zz'' 3) = demo \<and>
   returned (limit_column_size demo ''zz'' 3) = Inl (ValueError (column_missing ''zz''))"
proof -
  have hasnt: "\<not> has_column demo ''zz''" by (simp add: has_column_def demo_def)
  with missing_column_signals [of demo "''zz''" NaN 3 "''w''"] show ?thesis by simp
qed

text \<open>
  Claim C3, as stated, knows two signals, \<open>None\<close> with a logged message and the
  error. \<open>drop_column\<close> gives neither: it returns \<open>None\<close> and logs nothing.
\<close>

theorem drop_column_silent_counterexample:
  "\<not> has_column demo ''zz'' \<and>
   returned (drop_column demo ''zz'') = Inr None \<and>
   printed (drop_column demo ''zz'') = []"
  by (simp add: drop_column_def has_column_def demo_def)

end
